theory Spec2Isabelle
  imports Main "HOL-Library.Word"
begin

unbundle bit_operations_syntax

section \<open>Common data: errors, numbers printed in template literals\<close>

text \<open>
  A JavaScript \<open>Error\<close> is modelled by its message. Every \<open>throw\<close> of the source is
  an \<open>Inl (Error msg)\<close> of the model, every normal return an \<open>Inr\<close>.
\<close>

datatype js_error = Error string

fun message :: "js_error \<Rightarrow> string" where
  "message (Error m) = m"

text \<open>
  Numbers interpolated in template literals (\<open>`${port}`\<close>) are integers here; they
  are printed in decimal, with a leading minus sign when negative.
\<close>

definition digit_char :: "int \<Rightarrow> char" where
  "digit_char d = ''0123456789'' ! nat d"

function string_of_digits :: "int \<Rightarrow> string" where
  "string_of_digits n =
     (if n < 10 then [digit_char n]
      else string_of_digits (n div 10) @ [digit_char (n mod 10)])"
  by pat_completeness auto
termination
  by (relation "measure nat") auto

declare string_of_digits.simps [simp del]

definition string_of_int :: "int \<Rightarrow> string" where
  "string_of_int i =
     (if i < 0 then CHR ''-'' # string_of_digits (- i) else string_of_digits i)"

section \<open>Node library: buffers, base64 and SHA-256\<close>

text \<open>
  A \<open>Buffer\<close> is a list of bytes. A JavaScript string is modelled by a \<open>string\<close>
  holding the bytes of its UTF-8 encoding, so \<open>Buffer.from(s)\<close> and
  \<open>buf.toString("utf-8")\<close> only change the type of the elements.
\<close>

type_synonym byte = "8 word"

definition utf8_bytes :: "string \<Rightarrow> byte list" where
  "utf8_bytes s = map (\<lambda>c. word_of_int (of_char c)) s"

definition utf8_string :: "byte list \<Rightarrow> string" where
  "utf8_string bs = map (\<lambda>b. char_of (uint b)) bs"

text \<open>
  Base64 as \<open>buf.toString("base64")\<close> and \<open>buf.toString("base64url")\<close> produce
  it: three bytes give four characters of the alphabet; one or two bytes left over give
  two or three characters, followed by \<open>=\<close> padding in the \<open>base64\<close> variant only.
\<close>

definition b64_alphabet :: string where
  "b64_alphabet = ''ABCDEFGHIJKLMNOPQRSTUVWXYZabcdefghijklmnopqrstuvwxyz0123456789+/''"

definition b64url_alphabet :: string where
  "b64url_alphabet = ''ABCDEFGHIJKLMNOPQRSTUVWXYZabcdefghijklmnopqrstuvwxyz0123456789-_''"

fun b64_encode :: "string \<Rightarrow> bool \<Rightarrow> byte list \<Rightarrow> string" where
  "b64_encode al padded [] = []"
| "b64_encode al padded [a] =
     [al ! (unat a div 4), al ! ((unat a mod 4) * 16)] @ (if padded then ''=='' else [])"
| "b64_encode al padded [a, b] =
     [al ! (unat a div 4), al ! ((unat a mod 4) * 16 + unat b div 16),
      al ! ((unat b mod 16) * 4)] @ (if padded then ''='' else [])"
| "b64_encode al padded (a # b # c # rest) =
     [al ! (unat a div 4), al ! ((unat a mod 4) * 16 + unat b div 16),
      al ! ((unat b mod 16) * 4 + unat c div 64), al ! (unat c mod 64)]
     @ b64_encode al padded rest"

definition toString_base64 :: "byte list \<Rightarrow> string" where
  "toString_base64 buf = b64_encode b64_alphabet True buf"

definition toString_base64url :: "byte list \<Rightarrow> string" where
  "toString_base64url buf = b64_encode b64url_alphabet False buf"

text \<open>
  \<open>Buffer.from(s, "base64")\<close>: the decoder accepts both alphabets, skips every
  character that belongs to neither, and stops at the first \<open>=\<close>.
\<close>

fun index_of :: "'a \<Rightarrow> 'a list \<Rightarrow> nat option" where
  "index_of x [] = None"
| "index_of x (y # ys) =
     (if x = y then Some 0 else (case index_of x ys of None \<Rightarrow> None | Some i \<Rightarrow> Some (Suc i)))"

definition unbase64 :: "char \<Rightarrow> nat option" where
  "unbase64 c =
     (case index_of c b64_alphabet of
        Some i \<Rightarrow> Some i
      | None \<Rightarrow> index_of c b64url_alphabet)"

fun b64_sextets :: "string \<Rightarrow> nat list" where
  "b64_sextets [] = []"
| "b64_sextets (c # cs) =
     (if c = CHR ''='' then []
      else (case unbase64 c of None \<Rightarrow> b64_sextets cs | Some v \<Rightarrow> v # b64_sextets cs))"

fun b64_bytes :: "nat list \<Rightarrow> byte list" where
  "b64_bytes (a # b # c # d # rest) =
     [word_of_nat (a * 4 + b div 16), word_of_nat ((b mod 16) * 16 + c div 4),
      word_of_nat ((c mod 4) * 64 + d)] @ b64_bytes rest"
| "b64_bytes [a, b, c] =
     [word_of_nat (a * 4 + b div 16), word_of_nat ((b mod 16) * 16 + c div 4)]"
| "b64_bytes [a, b] = [word_of_nat (a * 4 + b div 16)]"
| "b64_bytes _ = []"

definition from_base64 :: "string \<Rightarrow> byte list" where
  "from_base64 s = b64_bytes (b64_sextets s)"

text \<open>
  SHA-256 (FIPS 180-4), as \<open>crypto.createHash("sha256")\<close> computes it. The 32-bit
  words are integers, every addition reduced modulo \<open>2 ^ 32\<close>.
\<close>

type_synonym u32 = int

definition add32 :: "u32 \<Rightarrow> u32 \<Rightarrow> u32" where
  "add32 a b = (a + b) mod 2 ^ 32"

definition rotr :: "nat \<Rightarrow> u32 \<Rightarrow> u32" where
  "rotr n x = drop_bit n x OR (push_bit (32 - n) x) mod 2 ^ 32"

definition Ch :: "u32 \<Rightarrow> u32 \<Rightarrow> u32 \<Rightarrow> u32" where
  "Ch x y z = (x AND y) XOR ((x XOR 0xffffffff) AND z)"

definition Maj :: "u32 \<Rightarrow> u32 \<Rightarrow> u32 \<Rightarrow> u32" where
  "Maj x y z = (x AND y) XOR (x AND z) XOR (y AND z)"

definition Sigma0 :: "u32 \<Rightarrow> u32" where
  "Sigma0 x = rotr 2 x XOR rotr 13 x XOR rotr 22 x"

definition Sigma1 :: "u32 \<Rightarrow> u32" where
  "Sigma1 x = rotr 6 x XOR rotr 11 x XOR rotr 25 x"

definition sigma0 :: "u32 \<Rightarrow> u32" where
  "sigma0 x = rotr 7 x XOR rotr 18 x XOR drop_bit 3 x"

definition sigma1 :: "u32 \<Rightarrow> u32" where
  "sigma1 x = rotr 17 x XOR rotr 19 x XOR drop_bit 10 x"

definition K256 :: "u32 list" where
  "K256 = concat
    [[0x428a2f98, 0x71374491, 0xb5c0fbcf, 0xe9b5dba5, 0x3956c25b, 0x59f111f1, 0x923f82a4, 0xab1c5ed5],
     [0xd807aa98, 0x12835b01, 0x243185be, 0x550c7dc3, 0x72be5d74, 0x80deb1fe, 0x9bdc06a7, 0xc19bf174],
     [0xe49b69c1, 0xefbe4786, 0x0fc19dc6, 0x240ca1cc, 0x2de92c6f, 0x4a7484aa, 0x5cb0a9dc, 0x76f988da],
     [0x983e5152, 0xa831c66d, 0xb00327c8, 0xbf597fc7, 0xc6e00bf3, 0xd5a79147, 0x06ca6351, 0x14292967],
     [0x27b70a85, 0x2e1b2138, 0x4d2c6dfc, 0x53380d13, 0x650a7354, 0x766a0abb, 0x81c2c92e, 0x92722c85],
     [0xa2bfe8a1, 0xa81a664b, 0xc24b8b70, 0xc76c51a3, 0xd192e819, 0xd6990624, 0xf40e3585, 0x106aa070],
     [0x19a4c116, 0x1e376c08, 0x2748774c, 0x34b0bcb5, 0x391c0cb3, 0x4ed8aa4a, 0x5b9cca4f, 0x682e6ff3],
     [0x748f82ee, 0x78a5636f, 0x84c87814, 0x8cc70208, 0x90befffa, 0xa4506ceb, 0xbef9a3f7, 0xc67178f2]]"

definition H256 :: "u32 list" where
  "H256 = [0x6a09e667, 0xbb67ae85, 0x3c6ef372, 0xa54ff53a,
           0x510e527f, 0x9b05688c, 0x1f83d9ab, 0x5be0cd19]"

text \<open>Padding: a \<open>0x80\<close> byte, zero bytes, and the bit length as 8 bytes, big-endian.\<close>

definition be64 :: "int \<Rightarrow> byte list" where
  "be64 n = map (\<lambda>i. word_of_int (drop_bit (8 * (7 - i)) n)) [0..<8]"

definition sha_pad :: "byte list \<Rightarrow> byte list" where
  "sha_pad m =
     m @ [0x80] @ replicate ((119 - length m mod 64) mod 64) 0 @ be64 (8 * int (length m))"

fun be_words :: "byte list \<Rightarrow> u32 list" where
  "be_words (a # b # c # d # rest) =
     (push_bit 24 (uint a) OR push_bit 16 (uint b) OR push_bit 8 (uint c) OR uint d)
     # be_words rest"
| "be_words _ = []"

fun blocks64 :: "byte list \<Rightarrow> byte list list" where
  "blocks64 [] = []"
| "blocks64 (x # xs) = take 64 (x # xs) # blocks64 (drop 64 (x # xs))"

text \<open>The message schedule: \<open>k\<close> more words appended to the first sixteen.\<close>

fun schedule :: "nat \<Rightarrow> u32 list \<Rightarrow> u32 list" where
  "schedule 0 ws = ws"
| "schedule (Suc k) ws =
     schedule k (ws @ [add32 (add32 (add32 (sigma1 (ws ! (length ws - 2))) (ws ! (length ws - 7)))
                                (sigma0 (ws ! (length ws - 15)))) (ws ! (length ws - 16))])"

fun round256 :: "u32 list \<Rightarrow> u32 \<times> u32 \<Rightarrow> u32 list" where
  "round256 [a, b, c, d, e, f, g, h] (k, w) =
     (let t1 = add32 (add32 (add32 (add32 h (Sigma1 e)) (Ch e f g)) k) w;
          t2 = add32 (Sigma0 a) (Maj a b c)
      in [add32 t1 t2, a, b, c, add32 d t1, e, f, g])"
| "round256 s _ = s"

definition compress :: "u32 list \<Rightarrow> byte list \<Rightarrow> u32 list" where
  "compress hs block =
     (let ws = schedule 48 (be_words block)
      in map2 add32 hs (foldl round256 hs (zip K256 ws)))"

definition be32 :: "u32 \<Rightarrow> byte list" where
  "be32 w = [word_of_int (drop_bit 24 w), word_of_int (drop_bit 16 w),
             word_of_int (drop_bit 8 w), word_of_int w]"

definition sha256 :: "byte list \<Rightarrow> byte list" where
  "sha256 m = concat (map be32 (foldl compress H256 (blocks64 (sha_pad m))))"

section \<open>oauth-utils.ts\<close>

definition OAUTH_ENDPOINTS_authorization :: string where
  "OAUTH_ENDPOINTS_authorization = ''https://console.anthropic.com/oauth/authorize''"

definition OAUTH_ENDPOINTS_token :: string where
  "OAUTH_ENDPOINTS_token = ''https://api.anthropic.com/v1/oauth/token''"

definition OAUTH_CLIENT_ID :: string where
  "OAUTH_CLIENT_ID = ''9d1c250a-e61b-44d9-88ed-5944d1962f5e''"

definition OAUTH_SCOPES :: string where
  "OAUTH_SCOPES = ''org:create_api_key user:profile user:inference''"

record TokenResponse =
  access_token :: string
  refresh_token :: "string option"
  expires_in :: "int option"
  token_type :: "string option"

record OAuthTokens =
  accessToken :: string
  refreshToken :: "string option"
  expiresAt :: "int option"

text \<open>
  The request handed to \<open>fetch\<close>: the URL, the method, the content type and the form
  fields of the \<open>URLSearchParams\<close> body, in the order the source inserts them.
\<close>

record http_request =
  req_url :: string
  req_method :: string
  req_content_type :: string
  req_form :: "(string \<times> string) list"

text \<open>
  What \<open>fetch\<close> gives back: \<open>response.ok\<close>, \<open>response.status\<close>, the body as
  \<open>response.text()\<close> returns it, and the outcome of \<open>response.json()\<close> (which throws
  on a body that is not JSON).
\<close>

record http_response =
  resp_ok :: bool
  resp_status :: int
  resp_text :: string
  resp_json :: "js_error + TokenResponse"

type_synonym fetch_fn = "http_request \<Rightarrow> js_error + http_response"

record exchange_params =
  code :: string
  redirectUri :: string
  codeVerifier :: string

text \<open>The body and request built by \<open>exchangeAuthorizationCode\<close> before it awaits \<open>fetch\<close>.\<close>

definition exchange_body :: "exchange_params \<Rightarrow> (string \<times> string) list" where
  "exchange_body params =
     [(''grant_type'', ''authorization_code''),
      (''code'', code params),
      (''client_id'', OAUTH_CLIENT_ID),
      (''redirect_uri'', redirectUri params),
      (''code_verifier'', codeVerifier params)]"

definition exchange_request :: "exchange_params \<Rightarrow> http_request" where
  "exchange_request params =
     \<lparr> req_url = OAUTH_ENDPOINTS_token,
       req_method = ''POST'',
       req_content_type = ''application/x-www-form-urlencoded'',
       req_form = exchange_body params \<rparr>"

text \<open>
  \<open>data.expires_in ? Date.now() + data.expires_in * 1000 : undefined\<close>: an absent
  and a zero \<open>expires_in\<close> both give no expiry.
\<close>

definition expires_at_of :: "int \<Rightarrow> int option \<Rightarrow> int option" where
  "expires_at_of now ei =
     (case ei of
        None \<Rightarrow> None
      | Some s \<Rightarrow> if s = 0 then None else Some (now + s * 1000))"

text \<open>The part of \<open>exchangeAuthorizationCode\<close> that runs once \<open>fetch\<close> has answered.\<close>

definition exchange_response :: "int \<Rightarrow> (js_error + http_response) \<Rightarrow> js_error + OAuthTokens" where
  "exchange_response now r =
     (case r of
        Inl e \<Rightarrow> Inl e
      | Inr response \<Rightarrow>
          if \<not> resp_ok response then
            Inl (Error (''Token exchange failed: '' @ string_of_int (resp_status response)
                        @ '' - '' @ resp_text response))
          else
            (case resp_json response of
               Inl e \<Rightarrow> Inl e
             | Inr data \<Rightarrow>
                 Inr \<lparr> accessToken = access_token data,
                       refreshToken = refresh_token data,
                       expiresAt = expires_at_of now (expires_in data) \<rparr>))"

definition exchangeAuthorizationCode ::
    "fetch_fn \<Rightarrow> int \<Rightarrow> exchange_params \<Rightarrow> js_error + OAuthTokens" where
  "exchangeAuthorizationCode fetch now params =
     exchange_response now (fetch (exchange_request params))"

text \<open>\<open>refreshOAuthToken\<close>: the form body, the request, and the handling of the answer.\<close>

definition refresh_body :: "string \<Rightarrow> (string \<times> string) list" where
  "refresh_body rt =
     [(''grant_type'', ''refresh_token''),
      (''refresh_token'', rt),
      (''client_id'', ''claude-desktop'')]"

definition refresh_request :: "string \<Rightarrow> http_request" where
  "refresh_request rt =
     \<lparr> req_url = OAUTH_ENDPOINTS_token,
       req_method = ''POST'',
       req_content_type = ''application/x-www-form-urlencoded'',
       req_form = refresh_body rt \<rparr>"

text \<open>\<open>data.refresh_token || refreshToken\<close>: an absent or empty token falls back.\<close>

definition or_else :: "string option \<Rightarrow> string \<Rightarrow> string" where
  "or_else a b = (case a of None \<Rightarrow> b | Some s \<Rightarrow> if s = [] then b else s)"

definition refreshOAuthToken :: "fetch_fn \<Rightarrow> int \<Rightarrow> string \<Rightarrow> js_error + OAuthTokens" where
  "refreshOAuthToken fetch now rt =
     (case fetch (refresh_request rt) of
        Inl e \<Rightarrow> Inl e
      | Inr response \<Rightarrow>
          if \<not> resp_ok response then
            Inl (Error (''Failed to refresh token: '' @ resp_text response))
          else
            (case resp_json response of
               Inl e \<Rightarrow> Inl e
             | Inr data \<Rightarrow>
                 Inr \<lparr> accessToken = access_token data,
                       refreshToken = Some (or_else (refresh_token data) rt),
                       expiresAt = expires_at_of now (expires_in data) \<rparr>))"

text \<open>
  \<open>isTokenExpired(expiresAt?: number)\<close>, with \<open>Date.now()\<close> passed in. Timestamps are
  integral milliseconds. \<open>!expiresAt\<close> holds for \<open>undefined\<close> and for \<open>0\<close>.
\<close>

definition isTokenExpired :: "int \<Rightarrow> int option \<Rightarrow> bool" where
  "isTokenExpired now expires =
     (case expires of
        None \<Rightarrow> False
      | Some e \<Rightarrow>
          if e = 0 then False
          else (let bufferMs = 5 * 60 * 1000 in now + bufferMs \<ge> e))"

section \<open>oauth-server.ts: port probing\<close>

text \<open>
  \<open>checkPortAvailable\<close> creates a bare server, listens on the loopback address and
  resolves \<open>true\<close> after closing it once it is listening, \<open>false\<close> on an error event.
  The environment is the function \<open>binds\<close>: whether a listener binds on that port now.

  \<open>server.listen\<close> validates the port before anything is bound: for a number outside
  0..65535 it throws \<open>ERR_SOCKET_BAD_PORT\<close> synchronously. The call is made in the
  executor of the promise, which has no handler for it, so the promise is rejected with
  that error: the result \<open>Inl\<close>, with no event, since nothing listened.
\<close>

datatype net_event = Listen string int | ListenOk int | Close int | ListenError int

definition valid_port :: "int \<Rightarrow> bool" where
  "valid_port port = (0 \<le> port \<and> port \<le> 65535)"

definition ERR_SOCKET_BAD_PORT :: "int \<Rightarrow> js_error" where
  "ERR_SOCKET_BAD_PORT port =
     Error (''options.port should be >= 0 and < 65536. Received type number (''
            @ string_of_int port @ '').'')"

definition checkPortAvailable :: "(int \<Rightarrow> bool) \<Rightarrow> int \<Rightarrow> net_event list \<times> (js_error + bool)" where
  "checkPortAvailable binds port =
     (if \<not> valid_port port then ([], Inl (ERR_SOCKET_BAD_PORT port))
      else if binds port then ([Listen ''127.0.0.1'' port, ListenOk port, Close port], Inr True)
      else ([Listen ''127.0.0.1'' port, ListenError port], Inr False))"

text \<open>
  The \<open>for\<close> loop of \<open>findAvailablePort\<close>, from the current value of \<open>port\<close>; the
  events of the probes made so far are threaded through. The \<open>await\<close> of a rejected
  probe throws, and the loop has no handler: the function rejects with the same error.
\<close>

function findAvailablePort_loop ::
    "(int \<Rightarrow> bool) \<Rightarrow> int \<Rightarrow> int \<Rightarrow> int \<Rightarrow> net_event list \<Rightarrow> net_event list \<times> (js_error + int)" where
  "findAvailablePort_loop binds mn mx port evs =
     (if port \<le> mx then
        (case checkPortAvailable binds port of
           (es, Inl e) \<Rightarrow> (evs @ es, Inl e)
         | (es, Inr isAvailable) \<Rightarrow>
             if isAvailable then (evs @ es, Inr port)
             else findAvailablePort_loop binds mn mx (port + 1) (evs @ es))
      else
        (evs, Inl (Error (''No available ports in range '' @ string_of_int mn
                          @ ''-'' @ string_of_int mx))))"
  by pat_completeness auto
termination
  by (relation "measure (\<lambda>(binds, mn, mx, port, evs). nat (mx + 1 - port))") auto

declare findAvailablePort_loop.simps [simp del]

definition findAvailablePort :: "(int \<Rightarrow> bool) \<Rightarrow> int \<Rightarrow> int \<Rightarrow> net_event list \<times> (js_error + int)" where
  "findAvailablePort binds mn mx = findAvailablePort_loop binds mn mx mn []"

text \<open>The ports on which a probe listened, in the order of the probes.\<close>

fun probed :: "net_event list \<Rightarrow> int list" where
  "probed [] = []"
| "probed (Listen h p # es) = p # probed es"
| "probed (e # es) = probed es"

section \<open>oauth-server.ts: the module state and the world around it\<close>

definition OAUTH_CONFIG_portRange_min :: int where
  "OAUTH_CONFIG_portRange_min = 21300"

definition OAUTH_CONFIG_portRange_max :: int where
  "OAUTH_CONFIG_portRange_max = 21399"

record PKCEChallenge =
  verifier :: string
  challenge :: string

text \<open>
  \<open>generatePKCE\<close>. The argument is \<open>crypto.randomBytes\<close>: the bytes it returns when
  asked for a number of them. \<open>createHash("sha256").update(verifier)\<close> hashes the
  bytes of the verifier string.
\<close>

definition generatePKCE :: "(nat \<Rightarrow> byte list) \<Rightarrow> PKCEChallenge" where
  "generatePKCE randomBytes =
     (let v = toString_base64url (randomBytes 32);
          hash = sha256 (utf8_bytes v);
          c = toString_base64url hash
      in \<lparr> verifier = v, challenge = c \<rparr>)"

text \<open>
  Servers, promises and timers are identified by numbers. \<open>resolveCallback\<close> and
  \<open>rejectCallback\<close> hold the number of the promise whose \<open>resolve\<close> and \<open>reject\<close>
  they are.
\<close>

record OAuthState =
  server :: "nat option"
  port :: "int option"
  pkce :: "PKCEChallenge option"
  state :: "string option"
  resolveCallback :: "nat option"
  rejectCallback :: "nat option"
  timeoutId :: "nat option"

datatype settlement = Resolved OAuthTokens | Rejected js_error

datatype reply_body = SuccessHTML | ErrorHTML string | HealthJson | NotFound

record http_reply =
  reply_status :: int
  reply_content_type :: string
  reply_body :: reply_body

record auth_url =
  url_base :: string
  url_params :: "(string \<times> string) list"

text \<open>
  The world: the module variable \<open>oauthState\<close>; the servers that are bound, each with
  its port; the armed timers, each with the promise its callback rejects; every call
  of a promise's \<open>resolve\<close> or \<open>reject\<close>, in order (the first call for a promise
  settles it, later ones have no effect); the HTTP replies written; the lines of
  \<open>console.error\<close> (label and message); the codes \<open>exchangeCodeForTokens\<close> was
  called with; the requests handed to \<open>fetch\<close>; the URLs handed to
  \<open>shell.openExternal\<close>; and the next unused identifier.
\<close>

record world =
  oauthState :: OAuthState
  listening :: "(nat \<times> int) list"
  timers :: "(nat \<times> nat) list"
  settled :: "(nat \<times> settlement) list"
  replies :: "http_reply list"
  console_error :: "(string \<times> string) list"
  exchange_calls :: "string list"
  fetches :: "http_request list"
  opened :: "auth_url list"
  fresh :: nat

definition idle_state :: OAuthState where
  "idle_state =
     \<lparr> server = None, port = None, pkce = None, state = None,
       resolveCallback = None, rejectCallback = None, timeoutId = None \<rparr>"

definition initial_world :: world where
  "initial_world =
     \<lparr> oauthState = idle_state, listening = [], timers = [], settled = [], replies = [],
       console_error = [], exchange_calls = [], fetches = [], opened = [], fresh = 0 \<rparr>"

text \<open>The state of a promise: how its first settling call settled it, if any did.\<close>

definition promise_state :: "world \<Rightarrow> nat \<Rightarrow> settlement option" where
  "promise_state w p = map_of (settled w) p"

definition settle :: "nat \<Rightarrow> settlement \<Rightarrow> world \<Rightarrow> world" where
  "settle p v w = w\<lparr>settled := settled w @ [(p, v)]\<rparr>"

text \<open>\<open>oauthState.resolveCallback?.(tokens)\<close> and \<open>oauthState.rejectCallback?.(error)\<close>.\<close>

definition call_resolveCallback :: "OAuthTokens \<Rightarrow> world \<Rightarrow> world" where
  "call_resolveCallback tokens w =
     (case resolveCallback (oauthState w) of
        None \<Rightarrow> w
      | Some p \<Rightarrow> settle p (Resolved tokens) w)"

definition call_rejectCallback :: "js_error \<Rightarrow> world \<Rightarrow> world" where
  "call_rejectCallback e w =
     (case rejectCallback (oauthState w) of
        None \<Rightarrow> w
      | Some p \<Rightarrow> settle p (Rejected e) w)"

text \<open>\<open>cleanup\<close>: clear the timer, close the server, null out every field.\<close>

definition cleanup :: "world \<Rightarrow> world" where
  "cleanup w =
     (let w1 = (case timeoutId (oauthState w) of
                  None \<Rightarrow> w
                | Some t \<Rightarrow>
                    w\<lparr>timers := filter (\<lambda>(t', p). t' \<noteq> t) (timers w),
                      oauthState := (oauthState w)\<lparr>timeoutId := None\<rparr>\<rparr>);
          w2 = (case server (oauthState w1) of
                  None \<Rightarrow> w1
                | Some s \<Rightarrow>
                    w1\<lparr>listening := filter (\<lambda>(s', p). s' \<noteq> s) (listening w1),
                       oauthState := (oauthState w1)\<lparr>server := None\<rparr>\<rparr>)
      in w2\<lparr>oauthState := (oauthState w2)
               \<lparr>port := None, pkce := None, state := None,
                resolveCallback := None, rejectCallback := None\<rparr>\<rparr>)"

section \<open>oauth-server.ts: the callback handler\<close>

fun escapeHtml :: "string \<Rightarrow> string" where
  "escapeHtml [] = []"
| "escapeHtml (c # cs) =
     (if c = CHR ''&'' then ''&amp;''
      else if c = CHR ''<'' then ''&lt;''
      else if c = CHR ''>'' then ''&gt;''
      else if c = CHR 0x22 then ''&quot;''
      else if c = CHR 0x27 then ''&#039;''
      else [c]) @ escapeHtml cs"

text \<open>
  The two pages. Only the part of the error page that depends on the message is kept:
  the escaped message; the fixed markup around it is not spelled out.
\<close>

definition getSuccessHTML :: reply_body where
  "getSuccessHTML = SuccessHTML"

definition getErrorHTML :: "string \<Rightarrow> reply_body" where
  "getErrorHTML msg = ErrorHTML (escapeHtml msg)"

text \<open>\<open>res.writeHead(status, {"Content-Type": type})\<close> followed by \<open>res.end(body)\<close>.\<close>

definition respond :: "int \<Rightarrow> string \<Rightarrow> reply_body \<Rightarrow> world \<Rightarrow> world" where
  "respond st ct body w =
     w\<lparr>replies := replies w @
        [\<lparr> reply_status = st, reply_content_type = ct, reply_body = body \<rparr>]\<rparr>"

definition log_error :: "string \<Rightarrow> string \<Rightarrow> world \<Rightarrow> world" where
  "log_error label msg w = w\<lparr>console_error := console_error w @ [(label, msg)]\<rparr>"

text \<open>
  What every failing branch of \<open>handleCallback\<close> does, in the order of the source:
  \<open>console.error\<close>, the error page, \<open>cleanup()\<close>, and then
  \<open>oauthState.rejectCallback?.(new Error(message))\<close>.
\<close>

definition fail_callback :: "string \<Rightarrow> string \<Rightarrow> world \<Rightarrow> world" where
  "fail_callback label msg w =
     (let w1 = log_error label msg w;
          w2 = respond 200 ''text/html'' (getErrorHTML msg) w1;
          w3 = cleanup w2
      in call_rejectCallback (Error msg) w3)"

text \<open>A query parameter is falsy when it is absent (\<open>null\<close>) or the empty string.\<close>

definition falsy :: "string option \<Rightarrow> bool" where
  "falsy v = (case v of None \<Rightarrow> True | Some s \<Rightarrow> s = [])"

text \<open>\<open>code.includes("#") ? code.split("#")[0] : code\<close>.\<close>

definition strip_fragment :: "string \<Rightarrow> string" where
  "strip_fragment c = (if CHR ''#'' \<in> set c then takeWhile (\<lambda>x. x \<noteq> CHR ''#'') c else c)"

text \<open>
  \<open>exchangeCodeForTokens\<close> up to the call of \<open>exchangeAuthorizationCode\<close>: the check
  of the module state and the parameters it passes on.
\<close>

definition exchangeCodeForTokens_params :: "OAuthState \<Rightarrow> string \<Rightarrow> js_error + exchange_params" where
  "exchangeCodeForTokens_params st c =
     (case pkce st of
        None \<Rightarrow> Inl (Error ''OAuth state not initialized'')
      | Some pk \<Rightarrow>
          (case port st of
             None \<Rightarrow> Inl (Error ''OAuth state not initialized'')
           | Some p \<Rightarrow>
               if p = 0 then Inl (Error ''OAuth state not initialized'')
               else Inr \<lparr> code = c,
                          redirectUri = ''http://localhost:'' @ string_of_int p @ ''/callback'',
                          codeVerifier = verifier pk \<rparr>))"

text \<open>
  \<open>handleCallback\<close> up to its \<open>await\<close>. The result is the world and, when the
  handler is waiting for the token exchange, what it waits for: the error with which
  \<open>exchangeCodeForTokens\<close> rejected at once, or the request given to \<open>fetch\<close>.
\<close>

definition handleCallback_begin ::
    "(string \<times> string) list \<Rightarrow> world \<Rightarrow> world \<times> (js_error + http_request) option" where
  "handleCallback_begin searchParams w =
     (let code_p = map_of searchParams ''code'';
          state_p = map_of searchParams ''state'';
          error_p = map_of searchParams ''error'';
          errorDescription = map_of searchParams ''error_description''
      in
        if \<not> falsy error_p then
          (fail_callback ''[OAuth] Authorization error:''
             (if falsy errorDescription then the error_p else the errorDescription) w, None)
        else if falsy state_p \<or> state_p \<noteq> state (oauthState w) then
          (fail_callback ''[OAuth]'' ''Invalid state parameter - possible CSRF attack'' w, None)
        else if falsy code_p then
          (fail_callback ''[OAuth]'' ''Missing authorization code'' w, None)
        else
          (let authCode = strip_fragment (the code_p);
               w1 = w\<lparr>exchange_calls := exchange_calls w @ [authCode]\<rparr>
           in case exchangeCodeForTokens_params (oauthState w1) authCode of
                Inl e \<Rightarrow> (w1, Some (Inl e))
              | Inr params \<Rightarrow>
                  (w1\<lparr>fetches := fetches w1 @ [exchange_request params]\<rparr>,
                   Some (Inr (exchange_request params)))))"

text \<open>
  \<open>handleCallback\<close> after the \<open>await\<close>: the rest of the \<open>try\<close> block when the
  exchange gave tokens, the \<open>catch\<close> block when it threw.
\<close>

definition handleCallback_resume :: "js_error + OAuthTokens \<Rightarrow> world \<Rightarrow> world" where
  "handleCallback_resume r w =
     (case r of
        Inr tokens \<Rightarrow>
          (let w1 = respond 200 ''text/html'' getSuccessHTML w;
               w2 = cleanup w1
           in call_resolveCallback tokens w2)
      | Inl exchangeError \<Rightarrow>
          fail_callback ''[OAuth] Token exchange error:'' (message exchangeError) w)"

text \<open>
  The whole handler when nothing else runs during the \<open>await\<close>: \<open>fetch\<close> answers
  the request and \<open>Date.now()\<close> is \<open>now\<close> when the answer is read.
\<close>

definition handleCallback :: "fetch_fn \<Rightarrow> int \<Rightarrow> (string \<times> string) list \<Rightarrow> world \<Rightarrow> world" where
  "handleCallback fetch now searchParams w =
     (case handleCallback_begin searchParams w of
        (w1, None) \<Rightarrow> w1
      | (w1, Some (Inl e)) \<Rightarrow> handleCallback_resume (Inl e) w1
      | (w1, Some (Inr req)) \<Rightarrow> handleCallback_resume (exchange_response now (fetch req)) w1)"

text \<open>The request handler of \<open>createOAuthServer\<close>: dispatch on the path.\<close>

definition handleRequest ::
    "fetch_fn \<Rightarrow> int \<Rightarrow> string \<Rightarrow> (string \<times> string) list \<Rightarrow> world \<Rightarrow> world" where
  "handleRequest fetch now pathname searchParams w =
     (if pathname = ''/callback'' then handleCallback fetch now searchParams w
      else if pathname = ''/health'' then respond 200 ''application/json'' HealthJson w
      else respond 404 ''text/plain'' NotFound w)"

section \<open>oauth-server.ts: starting and cancelling a flow\<close>

text \<open>
  A listener binds on a port when no other process holds the port (\<open>taken\<close>) and no
  server of this process is bound on it.
\<close>

definition port_binds :: "(int \<Rightarrow> bool) \<Rightarrow> world \<Rightarrow> int \<Rightarrow> bool" where
  "port_binds taken w p = (\<not> taken p \<and> p \<notin> set (map snd (listening w)))"

text \<open>
  \<open>startOAuthFlow\<close> up to its first \<open>await\<close>: \<open>cleanup()\<close>, then the promise is
  created and its executor starts looking for a port. The result is the new promise
  and the world.
\<close>

definition startOAuthFlow_begin :: "world \<Rightarrow> nat \<times> world" where
  "startOAuthFlow_begin w =
     (let w1 = cleanup w; p = fresh w1 in (p, w1\<lparr>fresh := p + 1\<rparr>))"

definition authorization_url :: "int \<Rightarrow> string \<Rightarrow> PKCEChallenge \<Rightarrow> auth_url" where
  "authorization_url prt st pk =
     \<lparr> url_base = OAUTH_ENDPOINTS_authorization,
       url_params =
         [(''client_id'', OAUTH_CLIENT_ID),
          (''response_type'', ''code''),
          (''redirect_uri'', ''http://localhost:'' @ string_of_int prt @ ''/callback''),
          (''scope'', OAUTH_SCOPES),
          (''state'', st),
          (''code_challenge'', challenge pk),
          (''code_challenge_method'', ''S256'')] \<rparr>"

text \<open>
  The outcome of \<open>server.listen(port, "127.0.0.1")\<close>, which arrives after the
  synchronous part of the executor: the server is bound, or its \<open>error\<close> handler
  runs \<open>cleanup()\<close> and rejects the promise \<open>p\<close> of this flow.
\<close>

definition server_listen :: "(int \<Rightarrow> bool) \<Rightarrow> nat \<Rightarrow> int \<Rightarrow> nat \<Rightarrow> world \<Rightarrow> world" where
  "server_listen taken srv prt p w =
     (if port_binds taken w prt then w\<lparr>listening := listening w @ [(srv, prt)]\<rparr>
      else settle p (Rejected (Error (''Failed to start OAuth server: listen EADDRINUSE: ''
                      @ ''address already in use 127.0.0.1:'' @ string_of_int prt)))
             (cleanup w))"

text \<open>
  The executor of the promise \<open>p\<close> from the moment \<open>findAvailablePort\<close> answers up
  to the \<open>await\<close> of \<open>shell.openExternal\<close>. \<open>rnd1\<close> and \<open>rnd2\<close> are the two calls
  of \<open>crypto.randomBytes\<close>. When no port is available the \<open>catch\<close> block runs.
\<close>

definition startOAuthFlow_bind ::
    "(int \<Rightarrow> bool) \<Rightarrow> (nat \<Rightarrow> byte list) \<Rightarrow> (nat \<Rightarrow> byte list) \<Rightarrow> nat \<Rightarrow> world \<Rightarrow> world" where
  "startOAuthFlow_bind taken rnd1 rnd2 p w =
     (case snd (findAvailablePort (port_binds taken w)
                  OAUTH_CONFIG_portRange_min OAUTH_CONFIG_portRange_max) of
        Inl e \<Rightarrow> settle p (Rejected e) (cleanup w)
      | Inr prt \<Rightarrow>
          (let pk = generatePKCE rnd1;
               st = toString_base64url (rnd2 32);
               srv = fresh w;
               tid = fresh w + 1;
               w1 = w\<lparr>oauthState :=
                        \<lparr> server = Some srv, port = Some prt, pkce = Some pk, state = Some st,
                          resolveCallback = Some p, rejectCallback = Some p, timeoutId = None \<rparr>,
                      fresh := fresh w + 2\<rparr>;
               w2 = w1\<lparr>timers := timers w1 @ [(tid, p)],
                       oauthState := (oauthState w1)\<lparr>timeoutId := Some tid\<rparr>\<rparr>;
               w3 = w2\<lparr>opened := opened w2 @ [authorization_url prt st pk]\<rparr>
           in server_listen taken srv prt p w3))"

text \<open>The \<open>catch\<close> block when \<open>shell.openExternal\<close> rejects with \<open>e\<close>.\<close>

definition startOAuthFlow_open_failed :: "nat \<Rightarrow> js_error \<Rightarrow> world \<Rightarrow> world" where
  "startOAuthFlow_open_failed p e w = settle p (Rejected e) (cleanup w)"

text \<open>
  The whole of \<open>startOAuthFlow\<close> when nothing else runs while it looks for a port.
\<close>

definition startOAuthFlow ::
    "(int \<Rightarrow> bool) \<Rightarrow> (nat \<Rightarrow> byte list) \<Rightarrow> (nat \<Rightarrow> byte list) \<Rightarrow> world \<Rightarrow> nat \<times> world" where
  "startOAuthFlow taken rnd1 rnd2 w =
     (case startOAuthFlow_begin w of
        (p, w1) \<Rightarrow> (p, startOAuthFlow_bind taken rnd1 rnd2 p w1))"

text \<open>The timer \<open>tid\<close> fires: \<open>cleanup()\<close>, then the promise of its flow is rejected.\<close>

definition timeout_fires :: "nat \<Rightarrow> world \<Rightarrow> world" where
  "timeout_fires tid w =
     (case map_of (timers w) tid of
        None \<Rightarrow> w
      | Some p \<Rightarrow>
          settle p (Rejected (Error ''OAuth flow timed out after 5 minutes''))
            (cleanup (w\<lparr>timers := filter (\<lambda>(t', q). t' \<noteq> tid) (timers w)\<rparr>)))"

definition cancelOAuthFlow :: "world \<Rightarrow> world" where
  "cancelOAuthFlow w =
     cleanup (call_rejectCallback (Error ''OAuth flow cancelled'') w)"

definition isOAuthFlowInProgress :: "world \<Rightarrow> bool" where
  "isOAuthFlowInProgress w = (server (oauthState w) \<noteq> None)"

text \<open>
  \<open>startLocalAuth\<close> (claude-code.ts) up to the first \<open>await\<close> inside
  \<open>startOAuthFlow\<close>: the guard, then the start of the flow.
\<close>

definition startLocalAuth_begin :: "world \<Rightarrow> js_error + nat \<times> world" where
  "startLocalAuth_begin w =
     (if isOAuthFlowInProgress w then Inl (Error ''OAuth flow already in progress'')
      else Inr (startOAuthFlow_begin w))"

section \<open>Runs of the module\<close>

text \<open>
  At most one listener, and it is the one the module state refers to.
\<close>

definition single_listener :: "world \<Rightarrow> bool" where
  "single_listener w =
     (case listening w of
        [] \<Rightarrow> True
      | [(s, p)] \<Rightarrow> server (oauthState w) = Some s
      | _ \<Rightarrow> False)"

text \<open>
  The worlds reached when every operation runs to its end before the next one starts:
  no other operation runs while \<open>startOAuthFlow\<close> looks for a port or while the
  callback handler waits for the token exchange.
\<close>

inductive atomic_run :: "world \<Rightarrow> bool" where
  run_init: "atomic_run initial_world"
| run_start: "atomic_run w \<Longrightarrow> atomic_run (snd (startOAuthFlow taken rnd1 rnd2 w))"
| run_request: "atomic_run w \<Longrightarrow> atomic_run (handleRequest fetch now pathname q w)"
| run_cancel: "atomic_run w \<Longrightarrow> atomic_run (cancelOAuthFlow w)"
| run_timeout: "atomic_run w \<Longrightarrow> atomic_run (timeout_fires tid w)"
| run_open_failed: "atomic_run w \<Longrightarrow> atomic_run (startOAuthFlow_open_failed p e w)"

section \<open>claude-token.ts: credentials already on the machine\<close>

text \<open>
  A parsed JSON value. Only the truthiness of a number matters here, so numbers are
  integers.
\<close>

datatype json =
  JNull | JBool bool | JNum int | JStr string | JArr "json list" | JObj "(string \<times> json) list"

fun truthy :: "json \<Rightarrow> bool" where
  "truthy JNull = False"
| "truthy (JBool b) = b"
| "truthy (JNum n) = (n \<noteq> 0)"
| "truthy (JStr s) = (s \<noteq> [])"
| "truthy (JArr xs) = True"
| "truthy (JObj kvs) = True"

text \<open>
  Reading the property \<open>name\<close> of a value: a \<open>TypeError\<close> on \<open>null\<close>, the member
  of an object if it has one, \<open>undefined\<close> (here \<open>None\<close>) otherwise; none of the
  names read below is a property of a string, a number, a boolean or an array.
\<close>

fun get_prop :: "json \<Rightarrow> string \<Rightarrow> js_error + json option" where
  "get_prop JNull name =
     Inl (Error (''Cannot read properties of null (reading '' @ name @ '')''))"
| "get_prop (JObj kvs) name = Inr (map_of kvs name)"
| "get_prop v name = Inr None"

text \<open>
  What the process sees of the machine: \<open>process.platform\<close>, \<open>os.homedir()\<close> (the
  home directory, or the system error thrown when it cannot be determined),
  \<open>path.join\<close> of the platform, and the outcomes of \<open>execSync\<close> (the output of a
  command, or the error thrown when it fails), \<open>existsSync\<close>, \<open>readFileSync\<close> and
  \<open>JSON.parse\<close>.
\<close>

record machine =
  platform :: string
  homedir :: "js_error + string"
  join :: "string list \<Rightarrow> string"
  execSync :: "string \<Rightarrow> js_error + string"
  existsSync :: "string \<Rightarrow> bool"
  readFileSync :: "string \<Rightarrow> js_error + string"
  JSON_parse :: "string \<Rightarrow> js_error + json"

record ClaudeOAuthCredential =
  cred_accessToken :: "json option"
  cred_refreshToken :: "json option"
  cred_expiresAt :: "json option"
  cred_scopes :: "json option"

text \<open>
  \<open>String.prototype.trim\<close> removes white space and line terminators from both ends
  of a string: TAB, LF, VT, FF, CR, the space, U+00A0, U+1680, U+2000 to U+200A,
  U+2028, U+2029, U+202F, U+205F, U+3000 and U+FEFF, here in their UTF-8 encoding.
\<close>

definition white_space :: "string list" where
  "white_space =
     [[CHR 0x09], [CHR 0x0A], [CHR 0x0B], [CHR 0x0C], [CHR 0x0D], [CHR 0x20],
      [CHR 0xC2, CHR 0xA0], [CHR 0xE1, CHR 0x9A, CHR 0x80]]
     @ map (\<lambda>c. [CHR 0xE2, CHR 0x80, c])
         [CHR 0x80, CHR 0x81, CHR 0x82, CHR 0x83, CHR 0x84, CHR 0x85, CHR 0x86, CHR 0x87,
          CHR 0x88, CHR 0x89, CHR 0x8A, CHR 0xA8, CHR 0xA9, CHR 0xAF]
     @ [[CHR 0xE2, CHR 0x81, CHR 0x9F], [CHR 0xE3, CHR 0x80, CHR 0x80],
        [CHR 0xEF, CHR 0xBB, CHR 0xBF]]"

text \<open>Removing from the front of \<open>s\<close>, as long as there is one, a sequence of \<open>ws\<close>.\<close>

function strip_leading :: "string list \<Rightarrow> string \<Rightarrow> string" where
  "strip_leading ws s =
     (case find (\<lambda>w. w \<noteq> [] \<and> take (length w) s = w) ws of
        None \<Rightarrow> s
      | Some w \<Rightarrow> strip_leading ws (drop (length w) s))"
  by pat_completeness auto
termination
proof (relation "measure (\<lambda>(ws, s). length s)")
  show "wf (measure (\<lambda>(ws, s). length s))"
    by simp
next
  fix ws :: "string list" and s w :: string
  assume "find (\<lambda>w. w \<noteq> [] \<and> take (length w) s = w) ws = Some w"
  then have w: "w \<noteq> []" and t: "take (length w) s = w"
    by (auto simp: find_Some_iff)
  from t have "length w = min (length w) (length s)"
    by (metis length_take min.commute)
  then have "length w \<le> length s"
    by simp
  moreover from w have "0 < length w"
    by (cases w) simp_all
  ultimately have "length s - length w < length s"
    by linarith
  then show "((ws, drop (length w) s), (ws, s)) \<in> measure (\<lambda>(ws, s). length s)"
    by simp
qed

declare strip_leading.simps [simp del]

definition trim :: "string \<Rightarrow> string" where
  "trim s = rev (strip_leading (map rev white_space) (rev (strip_leading white_space s)))"

text \<open>
  \<open>path.posix.join\<close>: the non-empty arguments joined by \<open>/\<close>, then normalised. The
  normal form drops the empty and the \<open>.\<close> segments and resolves \<open>..\<close> against the
  segment before it; above the start of a relative path \<open>..\<close> is kept, above the
  root it is dropped.
\<close>

fun split_on :: "char \<Rightarrow> string \<Rightarrow> string list" where
  "split_on c [] = [[]]"
| "split_on c (x # xs) =
     (if x = c then [] # split_on c xs
      else (case split_on c xs of [] \<Rightarrow> [[x]] | seg # segs \<Rightarrow> (x # seg) # segs))"

fun join_with :: "string \<Rightarrow> string list \<Rightarrow> string" where
  "join_with sep [] = []"
| "join_with sep [a] = a"
| "join_with sep (a # b # bs) = a @ sep @ join_with sep (b # bs)"

text \<open>The segments kept so far are held in reverse, the last one first.\<close>

fun normalize_segments :: "bool \<Rightarrow> string list \<Rightarrow> string list \<Rightarrow> string list" where
  "normalize_segments allowAboveRoot res [] = rev res"
| "normalize_segments allowAboveRoot res (seg # segs) =
     (if seg = [] \<or> seg = ''.'' then normalize_segments allowAboveRoot res segs
      else if seg = ''..'' then
        (if res \<noteq> [] \<and> hd res \<noteq> ''..'' then normalize_segments allowAboveRoot (tl res) segs
         else if allowAboveRoot then normalize_segments allowAboveRoot (''..'' # res) segs
         else normalize_segments allowAboveRoot res segs)
      else normalize_segments allowAboveRoot (seg # res) segs)"

definition normalizeString :: "string \<Rightarrow> bool \<Rightarrow> string" where
  "normalizeString path allowAboveRoot =
     join_with ''/'' (normalize_segments allowAboveRoot [] (split_on CHR ''/'' path))"

definition posix_normalize :: "string \<Rightarrow> string" where
  "posix_normalize path =
     (if path = [] then ''.''
      else
        (let isAbsolute = (hd path = CHR ''/'');
             trailingSeparator = (last path = CHR ''/'');
             normalized = normalizeString path (\<not> isAbsolute)
         in if normalized = [] then
              (if isAbsolute then ''/'' else if trailingSeparator then ''./'' else ''.'')
            else (if isAbsolute then ''/'' else [])
                 @ normalized @ (if trailingSeparator then ''/'' else [])))"

definition posix_join :: "string list \<Rightarrow> string" where
  "posix_join args =
     (let joined = filter (\<lambda>arg. arg \<noteq> []) args
      in if joined = [] then ''.'' else posix_normalize (join_with ''/'' joined))"

text \<open>The object built from \<open>credentials.claudeAiOauth\<close>, one property read per field.\<close>

definition credential_of :: "json \<Rightarrow> js_error + ClaudeOAuthCredential" where
  "credential_of oa =
     (case get_prop oa ''accessToken'' of Inl e \<Rightarrow> Inl e | Inr a \<Rightarrow>
      case get_prop oa ''refreshToken'' of Inl e \<Rightarrow> Inl e | Inr r \<Rightarrow>
      case get_prop oa ''expiresAt'' of Inl e \<Rightarrow> Inl e | Inr x \<Rightarrow>
      case get_prop oa ''scopes'' of Inl e \<Rightarrow> Inl e | Inr s \<Rightarrow>
        Inr \<lparr> cred_accessToken = a, cred_refreshToken = r,
              cred_expiresAt = x, cred_scopes = s \<rparr>)"

text \<open>
  The block every reader repeats: \<open>JSON.parse\<close> the text and, if
  \<open>credentials.claudeAiOauth\<close> is truthy, return the credential. \<open>Inr None\<close> means
  the block ended without a \<open>return\<close>.
\<close>

definition credentials_of_text :: "machine \<Rightarrow> string \<Rightarrow> js_error + ClaudeOAuthCredential option" where
  "credentials_of_text m text =
     (case JSON_parse m text of
        Inl e \<Rightarrow> Inl e
      | Inr credentials \<Rightarrow>
          (case get_prop credentials ''claudeAiOauth'' of
             Inl e \<Rightarrow> Inl e
           | Inr None \<Rightarrow> Inr None
           | Inr (Some oa) \<Rightarrow>
               if truthy oa then map_sum id Some (credential_of oa) else Inr None))"

text \<open>\<open>try { body } catch { }\<close>: an error thrown by the body ends the block.\<close>

definition try_catch :: "js_error + 'a option \<Rightarrow> js_error + 'a option" where
  "try_catch body = (case body of Inl e \<Rightarrow> Inr None | Inr v \<Rightarrow> Inr v)"

definition exec_lookup :: "machine \<Rightarrow> string \<Rightarrow> js_error + ClaudeOAuthCredential option" where
  "exec_lookup m command =
     (case execSync m command of
        Inl e \<Rightarrow> Inl e
      | Inr out \<Rightarrow>
          (let result = trim out
           in if result \<noteq> [] then credentials_of_text m result else Inr None))"

definition file_lookup :: "machine \<Rightarrow> string \<Rightarrow> js_error + ClaudeOAuthCredential option" where
  "file_lookup m credentialsPath =
     (if existsSync m credentialsPath then
        (case readFileSync m credentialsPath of
           Inl e \<Rightarrow> Inl e
         | Inr content \<Rightarrow> credentials_of_text m content)
      else Inr None)"

definition readFromMacOSKeychain :: "machine \<Rightarrow> js_error + ClaudeOAuthCredential option" where
  "readFromMacOSKeychain m =
     try_catch (exec_lookup m
       (''security find-generic-password -s '' @ [CHR 0x22] @ ''Claude Code-credentials''
        @ [CHR 0x22] @ '' -w''))"

text \<open>
  The Windows reader computes the path of the credentials file inside its \<open>try\<close>
  block: an error thrown by \<open>os.homedir()\<close> is caught with the others.
\<close>

definition readFromWindowsCredentialManager :: "machine \<Rightarrow> js_error + ClaudeOAuthCredential option" where
  "readFromWindowsCredentialManager m =
     try_catch
       (case homedir m of
          Inl e \<Rightarrow> Inl e
        | Inr home \<Rightarrow>
            (let credentialsPath = join m [home, ''.claude'', ''.credentials.json'']
             in file_lookup m credentialsPath))"

definition readFromLinuxSecretService :: "machine \<Rightarrow> js_error + ClaudeOAuthCredential option" where
  "readFromLinuxSecretService m =
     (case try_catch (exec_lookup m
             (''secret-tool lookup service '' @ [CHR 0x22] @ ''Claude Code'' @ [CHR 0x22]
              @ '' account '' @ [CHR 0x22] @ ''credentials'' @ [CHR 0x22] @ '' 2>/dev/null'')) of
        Inl e \<Rightarrow> Inl e
      | Inr (Some c) \<Rightarrow> Inr (Some c)
      | Inr None \<Rightarrow>
          try_catch (exec_lookup m ''pass show claude-code/credentials 2>/dev/null''))"

definition readFromKeychain :: "machine \<Rightarrow> js_error + ClaudeOAuthCredential option" where
  "readFromKeychain m =
     (if platform m = ''darwin'' then readFromMacOSKeychain m
      else if platform m = ''win32'' then readFromWindowsCredentialManager m
      else if platform m = ''linux'' then readFromLinuxSecretService m
      else Inr None)"

text \<open>
  \<open>readFromCredentialsFile\<close> computes the path before its \<open>try\<close> block: an error
  thrown by \<open>os.homedir()\<close> there is thrown by the function.
\<close>

definition readFromCredentialsFile :: "machine \<Rightarrow> js_error + ClaudeOAuthCredential option" where
  "readFromCredentialsFile m =
     (case homedir m of
        Inl e \<Rightarrow> Inl e
      | Inr home \<Rightarrow>
          (let credentialsPath = join m [home, ''.claude'', ''.credentials.json'']
           in try_catch (file_lookup m credentialsPath)))"

definition getExistingClaudeCredentials :: "machine \<Rightarrow> js_error + ClaudeOAuthCredential option" where
  "getExistingClaudeCredentials m =
     (case readFromKeychain m of
        Inl e \<Rightarrow> Inl e
      | Inr (Some keychainCreds) \<Rightarrow> Inr (Some keychainCreds)
      | Inr None \<Rightarrow> readFromCredentialsFile m)"

section \<open>claude-code.ts: the stored token\<close>

text \<open>
  Electron's \<open>safeStorage\<close>: whether encryption is available, and what
  \<open>encryptString\<close> and \<open>decryptString\<close> return or throw.
\<close>

record safeStorage =
  isEncryptionAvailable :: bool
  encryptString :: "string \<Rightarrow> js_error + byte list"
  decryptString :: "byte list \<Rightarrow> js_error + string"

definition encryptToken :: "safeStorage \<Rightarrow> string \<Rightarrow> js_error + string" where
  "encryptToken ss tok =
     (if \<not> isEncryptionAvailable ss then Inr (toString_base64 (utf8_bytes tok))
      else (case encryptString ss tok of
              Inl e \<Rightarrow> Inl e
            | Inr buf \<Rightarrow> Inr (toString_base64 buf)))"

definition decryptToken :: "safeStorage \<Rightarrow> string \<Rightarrow> js_error + string" where
  "decryptToken ss encrypted =
     (if \<not> isEncryptionAvailable ss then Inr (utf8_string (from_base64 encrypted))
      else (let buffer = from_base64 encrypted in decryptString ss buffer))"

text \<open>
  Modelled from the spec: the table \<open>claudeCodeCredentials\<close> and the database layer
  (\<open>getDatabase\<close> and the delete, insert and select it offers) are not among the
  sources. The spec describes a persistence layer for the single credential record
  with delete, insert and select by the fixed id, the insert replacing any prior
  record (delete then insert, not merge). The table is the list of its rows; delete
  removes the rows with the id, insert appends a row, and select returns the first
  row with the id.
\<close>

record credential_row =
  row_id :: string
  oauthToken :: string
  connectedAt :: int
  userId :: "string option"

definition db_delete :: "string \<Rightarrow> credential_row list \<Rightarrow> credential_row list" where
  "db_delete i db = filter (\<lambda>r. row_id r \<noteq> i) db"

definition db_insert :: "credential_row \<Rightarrow> credential_row list \<Rightarrow> credential_row list" where
  "db_insert r db = db @ [r]"

definition db_select :: "string \<Rightarrow> credential_row list \<Rightarrow> credential_row option" where
  "db_select i db = find (\<lambda>r. row_id r = i) db"

text \<open>\<open>storeOAuthToken\<close>; \<open>new Date()\<close> is \<open>now\<close>.\<close>

definition storeOAuthToken ::
    "safeStorage \<Rightarrow> int \<Rightarrow> string \<Rightarrow> credential_row list \<Rightarrow> js_error + credential_row list" where
  "storeOAuthToken ss now oauthToken_arg db =
     (case encryptToken ss oauthToken_arg of
        Inl e \<Rightarrow> Inl e
      | Inr encryptedToken \<Rightarrow>
          Inr (db_insert
                 \<lparr> row_id = ''default'', oauthToken = encryptedToken,
                   connectedAt = now, userId = None \<rparr>
                 (db_delete ''default'' db)))"

record token_result =
  token :: "string option"
  error :: "string option"

definition getToken :: "safeStorage \<Rightarrow> credential_row list \<Rightarrow> token_result" where
  "getToken ss db =
     (case db_select ''default'' db of
        None \<Rightarrow> \<lparr> token = None, error = Some ''Not connected'' \<rparr>
      | Some cred \<Rightarrow>
          if oauthToken cred = [] then \<lparr> token = None, error = Some ''Not connected'' \<rparr>
          else (case decryptToken ss (oauthToken cred) of
                  Inr t \<Rightarrow> \<lparr> token = Some t, error = None \<rparr>
                | Inl e \<Rightarrow> \<lparr> token = None, error = Some ''Failed to decrypt token'' \<rparr>))"

section \<open>Sample inputs, used to evaluate the code\<close>

text \<open>
  Two outcomes of \<open>crypto.randomBytes\<close>, a token endpoint that answers every request
  with a token set, and the world after \<open>startOAuthFlow\<close> has run in the initial
  world with every port of the range free.
\<close>

definition sample_rnd1 :: "nat \<Rightarrow> byte list" where
  "sample_rnd1 n = map (\<lambda>i. word_of_nat i) [0..<n]"

definition sample_rnd2 :: "nat \<Rightarrow> byte list" where
  "sample_rnd2 n = map (\<lambda>i. word_of_nat (255 - i)) [0..<n]"

definition sample_fetch :: fetch_fn where
  "sample_fetch req =
     Inr \<lparr> resp_ok = True, resp_status = 200, resp_text = ''{}'',
           resp_json = Inr \<lparr> access_token = ''tok-1'', refresh_token = Some ''ref-1'',
                              expires_in = Some 3600, token_type = Some ''Bearer'' \<rparr> \<rparr>"

definition sample_tokens :: OAuthTokens where
  "sample_tokens =
     \<lparr> accessToken = ''tok-1'', refreshToken = Some ''ref-1'',
       expiresAt = Some 1700003600000 \<rparr>"

definition sample_state :: string where
  "sample_state = ''__79_Pv6-fj39vX08_Lx8O_u7ezr6uno5-bl5OPi4eA''"

definition running_world :: world where
  "running_world = snd (startOAuthFlow (\<lambda>p. False) sample_rnd1 sample_rnd2 initial_world)"

text \<open>
  Two calls of \<open>startLocalAuth\<close>, the second made while the first is still looking
  for a port; then the first flow binds, then the second. Every port is free at the
  start.
\<close>

definition overlapping_starts :: "js_error + world" where
  "overlapping_starts =
     (case startLocalAuth_begin initial_world of
        Inl e \<Rightarrow> Inl e
      | Inr (p1, w1) \<Rightarrow>
          (case startLocalAuth_begin w1 of
             Inl e \<Rightarrow> Inl e
           | Inr (p2, w2) \<Rightarrow>
               Inr (startOAuthFlow_bind (\<lambda>p. False) sample_rnd2 sample_rnd1 p2
                      (startOAuthFlow_bind (\<lambda>p. False) sample_rnd1 sample_rnd2 p1 w2))))"

text \<open>
  Three machines: one where every lookup fails, one with a credentials file, and one
  whose user has no home directory (no \<open>HOME\<close> in the environment and no entry in
  the password database), where \<open>os.homedir()\<close> throws.
\<close>

definition bare_machine :: machine where
  "bare_machine =
     \<lparr> platform = ''linux'', homedir = Inr ''/home/u'', join = posix_join,
       execSync = (\<lambda>c. Inl (Error ''Command failed'')),
       existsSync = (\<lambda>p. True),
       readFileSync = (\<lambda>p. Inl (Error ''EACCES: permission denied'')),
       JSON_parse = (\<lambda>t. Inl (Error ''Unexpected token'')) \<rparr>"

definition sample_oauth :: json where
  "sample_oauth =
     JObj [(''accessToken'', JStr ''tok-1''), (''refreshToken'', JStr ''ref-1''),
           (''expiresAt'', JNum 1700003600000)]"

definition file_machine :: machine where
  "file_machine =
     \<lparr> platform = ''linux'', homedir = Inr ''/home/u'', join = posix_join,
       execSync = (\<lambda>c. if c = ''pass show claude-code/credentials 2>/dev/null''
                         then Inr ''not json'' else Inl (Error ''Command failed'')),
       existsSync = (\<lambda>p. p = ''/home/u/.claude/.credentials.json''),
       readFileSync = (\<lambda>p. Inr ''{...}''),
       JSON_parse = (\<lambda>t. if t = ''{...}'' then Inr (JObj [(''claudeAiOauth'', sample_oauth)])
                           else Inl (Error ''Unexpected token'')) \<rparr>"

definition homeless_machine :: machine where
  "homeless_machine =
     bare_machine \<lparr> homedir := Inl (Error (''A system error occurred: uv_os_homedir ''
                       @ ''returned ENOENT (no such file or directory)'')) \<rparr>"

text \<open>
  Two instances of \<open>safeStorage\<close>: one without encryption, and one whose cipher
  prefixes \<open>v10\<close> and flips bits of every byte.
\<close>

definition plain_storage :: safeStorage where
  "plain_storage =
     \<lparr> isEncryptionAvailable = False,
       encryptString = (\<lambda>s. Inl (Error ''Encryption is not available'')),
       decryptString = (\<lambda>b. Inl (Error ''Decryption is not available'')) \<rparr>"

definition toy_storage :: safeStorage where
  "toy_storage =
     \<lparr> isEncryptionAvailable = True,
       encryptString = (\<lambda>s. Inr (utf8_bytes ''v10'' @ map (\<lambda>b. b XOR 0x5A) (utf8_bytes s))),
       decryptString = (\<lambda>b. if take 3 b = utf8_bytes ''v10''
                              then Inr (utf8_string (map (\<lambda>b. b XOR 0x5A) (drop 3 b)))
                              else Inl (Error ''Decryption failed'')) \<rparr>"

definition old_row :: credential_row where
  "old_row = \<lparr> row_id = ''default'', oauthToken = ''b2xk'', connectedAt = 1600000000000,
               userId = None \<rparr>"

section \<open>Port probing: the first free port, in ascending order\<close>

lemma probed_append: "probed (xs @ ys) = probed xs @ probed ys"
  by (induction xs rule: probed.induct) simp_all

lemma checkPortAvailable_Inr:
  "checkPortAvailable binds p = (es, Inr b) \<Longrightarrow> valid_port p \<and> b = binds p \<and> probed es = [p]"
  by (auto simp: checkPortAvailable_def split: if_splits)

lemma checkPortAvailable_Inl:
  "checkPortAvailable binds p = (es, Inl e) \<Longrightarrow>
   \<not> valid_port p \<and> es = [] \<and> e = ERR_SOCKET_BAD_PORT p"
  by (auto simp: checkPortAvailable_def split: if_splits)

lemma probed_checkPortAvailable:
  "valid_port p \<Longrightarrow> probed (fst (checkPortAvailable binds p)) = [p]"
  by (simp add: checkPortAvailable_def)

lemma probed_probes:
  "\<forall>q \<in> set qs. valid_port q \<Longrightarrow>
   probed (concat (map (\<lambda>q. fst (checkPortAvailable binds q)) qs)) = qs"
  by (induction qs) (simp_all add: probed_append probed_checkPortAvailable)

lemma findAvailablePort_loop_Inr:
  "findAvailablePort_loop binds mn mx p0 evs = (evs', Inr p) \<Longrightarrow>
   p0 \<le> p \<and> p \<le> mx \<and> binds p \<and> (\<forall>q. p0 \<le> q \<and> q \<le> p \<longrightarrow> valid_port q) \<and>
   (\<forall>q. p0 \<le> q \<and> q < p \<longrightarrow> \<not> binds q) \<and>
   evs' = evs @ concat (map (\<lambda>q. fst (checkPortAvailable binds q)) [p0..p])"
proof (induction binds mn mx p0 evs rule: findAvailablePort_loop.induct)
  case (1 binds mn mx p0 evs)
  from "1.prems" have le: "p0 \<le> mx"
    by (subst (asm) findAvailablePort_loop.simps) (simp split: if_splits)
  obtain es r where c: "checkPortAvailable binds p0 = (es, r)"
    by (cases "checkPortAvailable binds p0")
  from "1.prems" le c obtain b where r: "r = Inr b"
    by (subst (asm) findAvailablePort_loop.simps) (cases r, simp_all)
  from checkPortAvailable_Inr [of binds p0 es b] c r
  have v: "valid_port p0" and b: "b = binds p0"
    by simp_all
  have es: "es = fst (checkPortAvailable binds p0)"
    using c by simp
  show ?case
  proof (cases b)
    case True
    with "1.prems" le c r have "p = p0" "evs' = evs @ es"
      by (subst (asm) findAvailablePort_loop.simps, simp)+
    with True b es le v show ?thesis
      by auto
  next
    case False
    with "1.prems" le c r
    have rec: "findAvailablePort_loop binds mn mx (p0 + 1) (evs @ es) = (evs', Inr p)"
      by (subst (asm) findAvailablePort_loop.simps) simp
    from "1.IH" [OF le c [symmetric] r False rec]
    have ih: "p0 + 1 \<le> p \<and> p \<le> mx \<and> binds p \<and>
              (\<forall>q. p0 + 1 \<le> q \<and> q \<le> p \<longrightarrow> valid_port q) \<and>
              (\<forall>q. p0 + 1 \<le> q \<and> q < p \<longrightarrow> \<not> binds q) \<and>
              evs' = (evs @ es) @ concat (map (\<lambda>q. fst (checkPortAvailable binds q)) [p0 + 1..p])"
      by simp
    have nb: "\<not> binds p0" using False b by simp
    have "\<forall>q. p0 \<le> q \<and> q < p \<longrightarrow> \<not> binds q"
    proof (intro allI impI)
      fix q assume "p0 \<le> q \<and> q < p"
      then consider "q = p0" | "p0 + 1 \<le> q \<and> q < p" by linarith
      then show "\<not> binds q" using nb ih by cases auto
    qed
    moreover have "\<forall>q. p0 \<le> q \<and> q \<le> p \<longrightarrow> valid_port q"
    proof (intro allI impI)
      fix q assume "p0 \<le> q \<and> q \<le> p"
      then consider "q = p0" | "p0 + 1 \<le> q \<and> q \<le> p" by linarith
      then show "valid_port q" using v ih by cases auto
    qed
    moreover have "[p0..p] = p0 # [p0 + 1..p]"
      using ih by (simp add: upto_rec1)
    ultimately show ?thesis
      using ih es by simp
  qed
qed

lemma findAvailablePort_loop_Inl:
  "\<forall>q. p0 \<le> q \<and> q \<le> mx \<longrightarrow> valid_port q \<Longrightarrow>
   findAvailablePort_loop binds mn mx p0 evs = (evs', Inl e) \<Longrightarrow>
   (\<forall>q. p0 \<le> q \<and> q \<le> mx \<longrightarrow> \<not> binds q) \<and>
   e = Error (''No available ports in range '' @ string_of_int mn @ ''-'' @ string_of_int mx) \<and>
   evs' = evs @ concat (map (\<lambda>q. fst (checkPortAvailable binds q)) [p0..mx])"
proof (induction binds mn mx p0 evs rule: findAvailablePort_loop.induct)
  case (1 binds mn mx p0 evs)
  note valid = "1.prems"(1) and res = "1.prems"(2)
  show ?case
  proof (cases "p0 \<le> mx")
    case False
    with res show ?thesis
      by (subst (asm) findAvailablePort_loop.simps) auto
  next
    case le: True
    with valid have v: "valid_port p0" by simp
    obtain es r where c: "checkPortAvailable binds p0 = (es, r)"
      by (cases "checkPortAvailable binds p0")
    from v c obtain b where r: "r = Inr b"
      using checkPortAvailable_Inl [of binds p0 es] by (cases r) auto
    from checkPortAvailable_Inr [of binds p0 es b] c r
    have b: "b = binds p0"
      by simp
    have es: "es = fst (checkPortAvailable binds p0)"
      using c by simp
    have nb: "\<not> b"
    proof
      assume "b"
      with res le c r show False
        by (subst (asm) findAvailablePort_loop.simps) simp
    qed
    with res le c r
    have rec: "findAvailablePort_loop binds mn mx (p0 + 1) (evs @ es) = (evs', Inl e)"
      by (subst (asm) findAvailablePort_loop.simps) simp
    have valid': "\<forall>q. p0 + 1 \<le> q \<and> q \<le> mx \<longrightarrow> valid_port q"
      using valid by simp
    from "1.IH" [OF le c [symmetric] r nb valid' rec]
    have ih: "(\<forall>q. p0 + 1 \<le> q \<and> q \<le> mx \<longrightarrow> \<not> binds q) \<and>
       e = Error (''No available ports in range '' @ string_of_int mn @ ''-'' @ string_of_int mx) \<and>
       evs' = (evs @ es) @ concat (map (\<lambda>q. fst (checkPortAvailable binds q)) [p0 + 1..mx])"
      by simp
    have "\<forall>q. p0 \<le> q \<and> q \<le> mx \<longrightarrow> \<not> binds q"
    proof (intro allI impI)
      fix q assume "p0 \<le> q \<and> q \<le> mx"
      then consider "q = p0" | "p0 + 1 \<le> q \<and> q \<le> mx" by linarith
      then show "\<not> binds q" using nb b ih by cases auto
    qed
    moreover have "[p0..mx] = p0 # [p0 + 1..mx]"
      using le by (simp add: upto_rec1)
    ultimately show ?thesis
      using ih es by simp
  qed
qed

text \<open>
  A number that is not a port ends the search: the probe of it throws before it
  listens, and \<open>findAvailablePort\<close> rethrows that error, whatever the ports after it
  would do. So the statement below is about ranges of ports, as the range of
  \<open>OAUTH_CONFIG\<close> is.
\<close>

lemma findAvailablePort_loop_bad_port:
  "p0 \<le> mx \<Longrightarrow> \<not> valid_port p0 \<Longrightarrow>
   findAvailablePort_loop binds mn mx p0 evs = (evs, Inl (ERR_SOCKET_BAD_PORT p0))"
  by (subst findAvailablePort_loop.simps) (simp add: checkPortAvailable_def)

lemma findAvailablePort_beyond_last_port:
  "findAvailablePort (\<lambda>p. False) 65535 65536 =
     ([Listen ''127.0.0.1'' 65535, ListenError 65535],
      Inl (Error ''options.port should be >= 0 and < 65536. Received type number (65536).''))"
  by code_simp

text \<open>
  Claim C5. On a range \<open>[mn, mx]\<close> of ports (numbers of 0..65535),
  \<open>findAvailablePort mn mx\<close> probes the ports in ascending order and returns the
  first port of the range on which the transient loopback listener binds: a returned
  port \<open>p\<close> lies in the range and binds, no smaller port of the range binds, and what
  happened is exactly the probes of \<open>mn, mn + 1, \<dots>, p\<close> in this order, each a
  listen on the loopback address followed by an error or by a close. It throws exactly
  when no port of the range binds; the error is the no-available-ports error, raised
  after every port \<open>mn, \<dots>, mx\<close> has been probed.
\<close>

theorem findAvailablePort_first_free:
  assumes "0 \<le> mn" and "mx \<le> 65535"
  shows
  "(\<forall>p evs. findAvailablePort binds mn mx = (evs, Inr p) \<longrightarrow>
      mn \<le> p \<and> p \<le> mx \<and> binds p \<and> (\<forall>q. mn \<le> q \<and> q < p \<longrightarrow> \<not> binds q) \<and>
      evs = concat (map (\<lambda>q. fst (checkPortAvailable binds q)) [mn..p]) \<and>
      probed evs = [mn..p]) \<and>
   ((\<exists>e evs. findAvailablePort binds mn mx = (evs, Inl e)) \<longleftrightarrow>
      (\<forall>q. mn \<le> q \<and> q \<le> mx \<longrightarrow> \<not> binds q)) \<and>
   (\<forall>e evs. findAvailablePort binds mn mx = (evs, Inl e) \<longrightarrow>
      e = Error (''No available ports in range '' @ string_of_int mn @ ''-'' @ string_of_int mx) \<and>
      evs = concat (map (\<lambda>q. fst (checkPortAvailable binds q)) [mn..mx]) \<and>
      probed evs = [mn..mx])"
proof -
  have valid: "\<forall>q. mn \<le> q \<and> q \<le> mx \<longrightarrow> valid_port q"
    using assms by (simp add: valid_port_def)
  have A: "\<forall>p evs. findAvailablePort binds mn mx = (evs, Inr p) \<longrightarrow>
      mn \<le> p \<and> p \<le> mx \<and> binds p \<and> (\<forall>q. mn \<le> q \<and> q < p \<longrightarrow> \<not> binds q) \<and>
      evs = concat (map (\<lambda>q. fst (checkPortAvailable binds q)) [mn..p]) \<and>
      probed evs = [mn..p]"
  proof (intro allI impI)
    fix p evs assume "findAvailablePort binds mn mx = (evs, Inr p)"
    then have "findAvailablePort_loop binds mn mx mn [] = (evs, Inr p)"
      by (simp add: findAvailablePort_def)
    from findAvailablePort_loop_Inr [OF this]
    have r: "mn \<le> p \<and> p \<le> mx \<and> binds p \<and> (\<forall>q. mn \<le> q \<and> q < p \<longrightarrow> \<not> binds q)"
      and vp: "\<forall>q. mn \<le> q \<and> q \<le> p \<longrightarrow> valid_port q"
      and e: "evs = concat (map (\<lambda>q. fst (checkPortAvailable binds q)) [mn..p])"
      by simp_all
    from vp have "\<forall>q \<in> set [mn..p]. valid_port q"
      by simp
    then have "probed evs = [mn..p]"
      unfolding e by (rule probed_probes)
    with r e show "mn \<le> p \<and> p \<le> mx \<and> binds p \<and>
      (\<forall>q. mn \<le> q \<and> q < p \<longrightarrow> \<not> binds q) \<and>
      evs = concat (map (\<lambda>q. fst (checkPortAvailable binds q)) [mn..p]) \<and>
      probed evs = [mn..p]"
      by blast
  qed
  have C: "\<forall>e evs. findAvailablePort binds mn mx = (evs, Inl e) \<longrightarrow>
      e = Error (''No available ports in range '' @ string_of_int mn @ ''-'' @ string_of_int mx) \<and>
      evs = concat (map (\<lambda>q. fst (checkPortAvailable binds q)) [mn..mx]) \<and>
      probed evs = [mn..mx]"
  proof (intro allI impI)
    fix e evs assume "findAvailablePort binds mn mx = (evs, Inl e)"
    then have "findAvailablePort_loop binds mn mx mn [] = (evs, Inl e)"
      by (simp add: findAvailablePort_def)
    from findAvailablePort_loop_Inl [OF valid this]
    have r: "e = Error (''No available ports in range '' @ string_of_int mn @ ''-''
                 @ string_of_int mx)"
      and v: "evs = concat (map (\<lambda>q. fst (checkPortAvailable binds q)) [mn..mx])"
      by simp_all
    from valid have "\<forall>q \<in> set [mn..mx]. valid_port q"
      by simp
    then have "probed evs = [mn..mx]"
      unfolding v by (rule probed_probes)
    with r v show "e = Error (''No available ports in range '' @ string_of_int mn @ ''-''
                 @ string_of_int mx) \<and>
      evs = concat (map (\<lambda>q. fst (checkPortAvailable binds q)) [mn..mx]) \<and>
      probed evs = [mn..mx]"
      by blast
  qed
  have B1: "(\<exists>e evs. findAvailablePort binds mn mx = (evs, Inl e)) \<Longrightarrow>
      (\<forall>q. mn \<le> q \<and> q \<le> mx \<longrightarrow> \<not> binds q)"
    using findAvailablePort_loop_Inl [OF valid, of binds mn "[]"]
    by (auto simp: findAvailablePort_def)
  have B2: "\<exists>e evs. findAvailablePort binds mn mx = (evs, Inl e)"
    if none: "\<forall>q. mn \<le> q \<and> q \<le> mx \<longrightarrow> \<not> binds q"
  proof -
    obtain evs r where fr: "findAvailablePort_loop binds mn mx mn [] = (evs, r)"
      by (cases "findAvailablePort_loop binds mn mx mn []")
    show ?thesis
    proof (cases r)
      case (Inl e)
      with fr show ?thesis by (auto simp: findAvailablePort_def)
    next
      case (Inr p)
      with fr findAvailablePort_loop_Inr [of binds mn mx mn "[]" evs p] none
      show ?thesis by auto
    qed
  qed
  have B: "(\<exists>e evs. findAvailablePort binds mn mx = (evs, Inl e)) \<longleftrightarrow>
      (\<forall>q. mn \<le> q \<and> q \<le> mx \<longrightarrow> \<not> binds q)"
    using B1 B2 by (rule iffI)
  show ?thesis
    by (intro conjI) (rule A, rule B, rule C)
qed

theorem findAvailablePort_first_free_witness:
  "findAvailablePort (\<lambda>p. p = 21302 \<or> p = 21350) 21300 21399 =
     ([Listen ''127.0.0.1'' 21300, ListenError 21300,
       Listen ''127.0.0.1'' 21301, ListenError 21301,
       Listen ''127.0.0.1'' 21302, ListenOk 21302, Close 21302], Inr 21302) \<and>
   probed (fst (findAvailablePort (\<lambda>p. p = 21302 \<or> p = 21350) 21300 21399)) = [21300..21302] \<and>
   findAvailablePort (\<lambda>p. False) 21300 21301 =
     ([Listen ''127.0.0.1'' 21300, ListenError 21300,
       Listen ''127.0.0.1'' 21301, ListenError 21301],
      Inl (Error ''No available ports in range 21300-21301''))"
proof -
  have a: "findAvailablePort (\<lambda>p. p = 21302 \<or> p = 21350) 21300 21399 =
     ([Listen ''127.0.0.1'' 21300, ListenError 21300,
       Listen ''127.0.0.1'' 21301, ListenError 21301,
       Listen ''127.0.0.1'' 21302, ListenOk 21302, Close 21302], Inr 21302)"
    by code_simp
  have b: "findAvailablePort (\<lambda>p. False) 21300 21301 =
     ([Listen ''127.0.0.1'' 21300, ListenError 21300,
       Listen ''127.0.0.1'' 21301, ListenError 21301],
      Inl (Error ''No available ports in range 21300-21301''))"
    by code_simp
  have ports: "(0::int) \<le> 21300" "(21399::int) \<le> 65535"
    by simp_all
  from findAvailablePort_first_free [OF ports, of "\<lambda>p. p = 21302 \<or> p = 21350"]
  have "\<forall>p evs. findAvailablePort (\<lambda>p. p = 21302 \<or> p = 21350) 21300 21399 = (evs, Inr p) \<longrightarrow>
          probed evs = [21300..p]"
    by blast
  with a have "probed [Listen ''127.0.0.1'' 21300, ListenError 21300,
       Listen ''127.0.0.1'' 21301, ListenError 21301,
       Listen ''127.0.0.1'' 21302, ListenOk 21302, Close 21302] = [21300..21302]"
    by blast
  then have "probed (fst (findAvailablePort (\<lambda>p. p = 21302 \<or> p = 21350) 21300 21399))
      = [21300..21302]"
    by (simp only: a fst_conv)
  with a b show ?thesis by (intro conjI)
qed

section \<open>Token expiry\<close>

text \<open>
  Claim C6, as stated, at a recorded expiry of \<open>0\<close>: the current time plus the
  buffer is past it, and the timestamp lies in the past, yet the function answers
  \<open>false\<close>.
\<close>

theorem isTokenExpired_zero_counterexample:
  "(0::int) \<le> 1700000000000 + 5 * 60 * 1000 \<and> (0::int) < 1700000000000 \<and>
   isTokenExpired 1700000000000 (Some 0) = False"
  by (simp add: isTokenExpired_def)

text \<open>
  Claim C6, amended. \<open>isTokenExpired\<close> returns false when no expiry is recorded and
  when the recorded expiry is \<open>0\<close>; for every other recorded \<open>expiresAt\<close> it returns
  true exactly when the current time plus the 5-minute buffer (300000 ms) is at or
  past \<open>expiresAt\<close>: in particular true for a non-zero timestamp in the past and
  false for a timestamp more than 5 minutes in the future.
\<close>

theorem isTokenExpired_buffer:
  "isTokenExpired now None = False \<and>
   isTokenExpired now (Some 0) = False \<and>
   (e \<noteq> 0 \<longrightarrow> isTokenExpired now (Some e) = (e \<le> now + 300000)) \<and>
   (e \<noteq> 0 \<and> e \<le> now \<longrightarrow> isTokenExpired now (Some e)) \<and>
   (now + 300000 < e \<longrightarrow> \<not> isTokenExpired now (Some e))"
  by (simp add: isTokenExpired_def)

theorem isTokenExpired_buffer_witness:
  "isTokenExpired 1700000000000 None = False \<and>
   isTokenExpired 1700000000000 (Some 0) = False \<and>
   isTokenExpired 1700000000000 (Some 1700000300000) = True \<and>
   isTokenExpired 1700000000000 (Some 1699999999999) = True \<and>
   isTokenExpired 1700000000000 (Some 1700000300001) = False"
  using isTokenExpired_buffer [of 1700000000000 1700000300000]
        isTokenExpired_buffer [of 1700000000000 1699999999999]
        isTokenExpired_buffer [of 1700000000000 1700000300001]
  by simp

section \<open>The client identifier sent to the token endpoint\<close>

text \<open>
  Claim C8 at the refresh request for the refresh token \<open>rt-1\<close>: the code exchange
  sends the configured \<open>OAUTH_CLIENT_ID\<close> as \<open>client_id\<close>, the refresh request
  sends the literal \<open>claude-desktop\<close>, and the two differ.
\<close>

theorem refresh_client_id_differs:
  "map_of (req_form (exchange_request
      \<lparr> code = ''abc'', redirectUri = ''http://localhost:21300/callback'',
        codeVerifier = ''v'' \<rparr>)) ''client_id'' = Some OAUTH_CLIENT_ID \<and>
   map_of (req_form (refresh_request ''rt-1'')) ''client_id'' = Some ''claude-desktop'' \<and>
   OAUTH_CLIENT_ID \<noteq> ''claude-desktop'' \<and>
   refreshOAuthToken
     (\<lambda>req. Inl (Error (the (map_of (req_form req) ''client_id'')))) 1700000000000 ''rt-1''
     = Inl (Error ''claude-desktop'')"
  by (simp add: exchange_request_def exchange_body_def refresh_request_def refresh_body_def
      OAUTH_CLIENT_ID_def refreshOAuthToken_def)

section \<open>The callback handler and the promise of the flow\<close>

lemma settled_cleanup: "settled (cleanup w) = settled w"
  by (simp add: cleanup_def Let_def split: option.splits)

lemma fetches_cleanup: "fetches (cleanup w) = fetches w"
  by (simp add: cleanup_def Let_def split: option.splits)

lemma exchange_calls_cleanup: "exchange_calls (cleanup w) = exchange_calls w"
  by (simp add: cleanup_def Let_def split: option.splits)

lemma console_error_cleanup: "console_error (cleanup w) = console_error w"
  by (simp add: cleanup_def Let_def split: option.splits)

lemma replies_cleanup: "replies (cleanup w) = replies w"
  by (simp add: cleanup_def Let_def split: option.splits)

lemma rejectCallback_cleanup: "rejectCallback (oauthState (cleanup w)) = None"
  by (simp add: cleanup_def Let_def split: option.splits)

lemma resolveCallback_cleanup: "resolveCallback (oauthState (cleanup w)) = None"
  by (simp add: cleanup_def Let_def split: option.splits)

lemma oauthState_cleanup: "oauthState (cleanup w) = idle_state"
  by (simp add: cleanup_def Let_def idle_state_def split: option.splits)

text \<open>
  After \<open>cleanup()\<close> the callbacks are null, so the optional call that follows it in
  every branch of the handler calls nothing.
\<close>

lemma fail_callback_effect:
  "fail_callback label msg w =
     cleanup (respond 200 ''text/html'' (getErrorHTML msg) (log_error label msg w))"
  by (simp add: fail_callback_def Let_def call_rejectCallback_def rejectCallback_cleanup)

lemma settled_fail_callback: "settled (fail_callback label msg w) = settled w"
  by (simp add: fail_callback_effect settled_cleanup respond_def log_error_def)

lemma fetches_fail_callback: "fetches (fail_callback label msg w) = fetches w"
  by (simp add: fail_callback_effect fetches_cleanup respond_def log_error_def)

lemma exchange_calls_fail_callback: "exchange_calls (fail_callback label msg w) = exchange_calls w"
  by (simp add: fail_callback_effect exchange_calls_cleanup respond_def log_error_def)

lemma console_error_fail_callback:
  "console_error (fail_callback label msg w) = console_error w @ [(label, msg)]"
  by (simp add: fail_callback_effect console_error_cleanup respond_def log_error_def)

lemma settled_handleCallback_begin: "settled (fst (handleCallback_begin q w)) = settled w"
  by (simp add: handleCallback_begin_def Let_def settled_fail_callback split: sum.splits)

lemma settled_handleCallback_resume: "settled (handleCallback_resume r w) = settled w"
  by (simp add: handleCallback_resume_def Let_def settled_fail_callback call_resolveCallback_def
      resolveCallback_cleanup settled_cleanup respond_def split: sum.splits)

lemma handleCallback_never_settles: "settled (handleCallback fetch now q w) = settled w"
proof -
  obtain w1 r where b: "handleCallback_begin q w = (w1, r)"
    by (cases "handleCallback_begin q w")
  then have "settled w1 = settled w"
    using settled_handleCallback_begin [of q w] by simp
  with b show ?thesis
    by (simp add: handleCallback_def settled_handleCallback_resume split: option.splits sum.splits)
qed

lemma running_world_eq:
  "running_world =
     \<lparr> oauthState =
         \<lparr> server = Some 1, port = Some 21300,
           pkce = Some \<lparr> verifier = ''AAECAwQFBgcICQoLDA0ODxAREhMUFRYXGBkaGxwdHh8'',
                         challenge = ''6oZqdX5MOLq_qBJ8vppAnT4fk6AP8UiP9zX8-Rev_9A'' \<rparr>,
           state = Some sample_state,
           resolveCallback = Some 0, rejectCallback = Some 0, timeoutId = Some 2 \<rparr>,
       listening = [(1, 21300)], timers = [(2, 0)], settled = [], replies = [],
       console_error = [], exchange_calls = [], fetches = [],
       opened = [authorization_url 21300 sample_state
                  \<lparr> verifier = ''AAECAwQFBgcICQoLDA0ODxAREhMUFRYXGBkaGxwdHh8'',
                    challenge = ''6oZqdX5MOLq_qBJ8vppAnT4fk6AP8UiP9zX8-Rev_9A'' \<rparr>],
       fresh = 3 \<rparr>"
  by code_simp

lemma console_error_handleCallback_resume:
  "\<exists>es. console_error (handleCallback_resume r w) = console_error w @ es \<and>
        (''[OAuth]'', ''Missing authorization code'') \<notin> set es"
proof (cases r)
  case (Inl e)
  then show ?thesis
    by (simp add: handleCallback_resume_def console_error_fail_callback)
next
  case (Inr tokens)
  then have "console_error (handleCallback_resume r w) = console_error w @ []"
    by (simp add: handleCallback_resume_def Let_def call_resolveCallback_def
        resolveCallback_cleanup console_error_cleanup respond_def)
  then show ?thesis by (intro exI [of _ "[]"]) simp
qed

lemma oauthState_fail_callback: "oauthState (fail_callback label msg w) = idle_state"
  by (simp add: fail_callback_effect oauthState_cleanup)

text \<open>
  The handler once the three checks have passed: it waits for the exchange of the
  stripped code and resumes with its outcome.
\<close>

lemma handleCallback_exchange_branch:
  assumes "falsy (map_of q ''error'')"
    and "\<not> falsy (map_of q ''state'')" and "map_of q ''state'' = state (oauthState w)"
    and "\<not> falsy (map_of q ''code'')"
  shows "handleCallback fetch now q w =
     (let authCode = strip_fragment (the (map_of q ''code''));
          w1 = w\<lparr>exchange_calls := exchange_calls w @ [authCode]\<rparr>
      in case exchangeCodeForTokens_params (oauthState w) authCode of
           Inl e \<Rightarrow> handleCallback_resume (Inl e) w1
         | Inr params \<Rightarrow>
             handleCallback_resume (exchange_response now (fetch (exchange_request params)))
               (w1\<lparr>fetches := fetches w @ [exchange_request params]\<rparr>))"
  using assms
  by (simp add: handleCallback_def handleCallback_begin_def Let_def split: sum.splits)

lemma exchange_calls_handleCallback_resume:
  "exchange_calls (handleCallback_resume r w) = exchange_calls w"
  by (cases r) (simp_all add: handleCallback_resume_def Let_def exchange_calls_fail_callback
      call_resolveCallback_def resolveCallback_cleanup exchange_calls_cleanup respond_def)

lemma fetches_handleCallback_resume:
  "fetches (handleCallback_resume r w) = fetches w"
  by (cases r) (simp_all add: handleCallback_resume_def Let_def fetches_fail_callback
      call_resolveCallback_def resolveCallback_cleanup fetches_cleanup respond_def)

text \<open>
  When the provider reported no error and the \<open>state\<close> parameter is missing, empty
  or different from the one of the session, the handler takes the CSRF branch: it
  logs and answers with the CSRF message, calls neither \<open>exchangeCodeForTokens\<close> nor
  \<open>fetch\<close>, and leaves the module state cleaned up.
\<close>

lemma csrf_branch:
  assumes "falsy (map_of q ''error'')"
    and "falsy (map_of q ''state'') \<or> map_of q ''state'' \<noteq> state (oauthState w)"
  shows "handleCallback fetch now q w =
           fail_callback ''[OAuth]'' ''Invalid state parameter - possible CSRF attack'' w"
  using assms by (simp add: handleCallback_def handleCallback_begin_def Let_def)

lemma csrf_blocks_exchange:
  assumes "falsy (map_of q ''error'')"
    and "falsy (map_of q ''state'') \<or> map_of q ''state'' \<noteq> state (oauthState w)"
  shows "fetches (handleCallback fetch now q w) = fetches w \<and>
         exchange_calls (handleCallback fetch now q w) = exchange_calls w \<and>
         console_error (handleCallback fetch now q w) =
           console_error w @ [(''[OAuth]'', ''Invalid state parameter - possible CSRF attack'')] \<and>
         oauthState (handleCallback fetch now q w) = idle_state"
  by (simp add: csrf_branch [OF assms] fetches_fail_callback exchange_calls_fail_callback
      console_error_fail_callback oauthState_fail_callback)

text \<open>
  Claim C1 at two callbacks received by the running flow (promise \<open>0\<close>, pending, held
  by both callbacks of the module state). First callback: the right \<open>state\<close> and a
  code, and the token endpoint answers with a token set: the success page is written,
  but no \<open>resolve\<close> or \<open>reject\<close> is ever called and the promise stays pending with
  its timer cleared. Second callback: \<open>error=access_denied\<close>: the error page is
  written, and again nothing settles the promise. In both, \<open>cleanup()\<close> has nulled
  the callbacks before the optional call reads them. \<open>cancelOAuthFlow\<close>, which
  rejects before it cleans up, does settle the promise.
\<close>

theorem handleCallback_leaves_promise_pending:
  "resolveCallback (oauthState running_world) = Some 0 \<and>
   rejectCallback (oauthState running_world) = Some 0 \<and>
   promise_state running_world 0 = None \<and>
   exchangeAuthorizationCode sample_fetch 1700000000000
     \<lparr> code = ''good-code'', redirectUri = ''http://localhost:21300/callback'',
       codeVerifier = ''AAECAwQFBgcICQoLDA0ODxAREhMUFRYXGBkaGxwdHh8'' \<rparr> = Inr sample_tokens \<and>
   replies (handleCallback sample_fetch 1700000000000
              [(''code'', ''good-code''), (''state'', sample_state)] running_world) =
     [\<lparr> reply_status = 200, reply_content_type = ''text/html'', reply_body = SuccessHTML \<rparr>] \<and>
   settled (handleCallback sample_fetch 1700000000000
              [(''code'', ''good-code''), (''state'', sample_state)] running_world) = [] \<and>
   promise_state (handleCallback sample_fetch 1700000000000
              [(''code'', ''good-code''), (''state'', sample_state)] running_world) 0 = None \<and>
   timers (handleCallback sample_fetch 1700000000000
              [(''code'', ''good-code''), (''state'', sample_state)] running_world) = [] \<and>
   replies (handleCallback sample_fetch 1700000000000
              [(''error'', ''access_denied'')] running_world) =
     [\<lparr> reply_status = 200, reply_content_type = ''text/html'',
        reply_body = ErrorHTML ''access_denied'' \<rparr>] \<and>
   settled (handleCallback sample_fetch 1700000000000
              [(''error'', ''access_denied'')] running_world) = [] \<and>
   settled (cancelOAuthFlow running_world) = [(0, Rejected (Error ''OAuth flow cancelled''))]"
  unfolding running_world_eq by code_simp

text \<open>
  Claim C2 at the callback \<open>code=good-code&state=wrong-value\<close> received by the
  running flow, whose state is another string: the CSRF page is written and logged,
  \<open>exchangeCodeForTokens\<close> is not called and nothing is given to \<open>fetch\<close>; but
  the promise of the flow (promise \<open>0\<close>) is not rejected: no settling call is made,
  it stays pending, and its timer is cleared.
\<close>

theorem csrf_mismatch_blocks_exchange_without_rejecting:
  "state (oauthState running_world) = Some sample_state \<and>
   sample_state \<noteq> ''wrong-value'' \<and>
   rejectCallback (oauthState running_world) = Some 0 \<and>
   replies (handleCallback sample_fetch 1700000000000
              [(''code'', ''good-code''), (''state'', ''wrong-value'')] running_world) =
     [\<lparr> reply_status = 200, reply_content_type = ''text/html'',
        reply_body = ErrorHTML ''Invalid state parameter - possible CSRF attack'' \<rparr>] \<and>
   console_error (handleCallback sample_fetch 1700000000000
              [(''code'', ''good-code''), (''state'', ''wrong-value'')] running_world) =
     [(''[OAuth]'', ''Invalid state parameter - possible CSRF attack'')] \<and>
   exchange_calls (handleCallback sample_fetch 1700000000000
              [(''code'', ''good-code''), (''state'', ''wrong-value'')] running_world) = [] \<and>
   fetches (handleCallback sample_fetch 1700000000000
              [(''code'', ''good-code''), (''state'', ''wrong-value'')] running_world) = [] \<and>
   settled (handleCallback sample_fetch 1700000000000
              [(''code'', ''good-code''), (''state'', ''wrong-value'')] running_world) = [] \<and>
   promise_state (handleCallback sample_fetch 1700000000000
              [(''code'', ''good-code''), (''state'', ''wrong-value'')] running_world) 0 = None \<and>
   timers (handleCallback sample_fetch 1700000000000
              [(''code'', ''good-code''), (''state'', ''wrong-value'')] running_world) = []"
  unfolding running_world_eq by code_simp

text \<open>
  Claim C10. For every callback whose \<open>code\<close> parameter begins with \<open>#\<close>, the
  handler does not fail with the missing-authorization-code error (no such line is
  logged, whatever the other parameters are). When the callback reaches the check of
  the code (no provider error, and the \<open>state\<close> of the session), the handler calls
  \<open>exchangeCodeForTokens\<close> with the empty string, and with an initialised session
  the request given to \<open>fetch\<close> carries the empty string as \<open>code\<close>.
\<close>

theorem fragment_code_reaches_exchange:
  assumes c: "map_of q ''code'' = Some (CHR ''#'' # rest)"
  shows "(\<exists>es. console_error (handleCallback fetch now q w) = console_error w @ es \<and>
            (''[OAuth]'', ''Missing authorization code'') \<notin> set es) \<and>
         (falsy (map_of q ''error'') \<and> map_of q ''state'' = Some s \<and> s \<noteq> [] \<and>
          state (oauthState w) = Some s \<longrightarrow>
            exchange_calls (handleCallback fetch now q w) = exchange_calls w @ [''''] \<and>
            (\<forall>pk p. pkce (oauthState w) = Some pk \<and> port (oauthState w) = Some p \<and> p \<noteq> 0 \<longrightarrow>
               fetches (handleCallback fetch now q w) =
                 fetches w @ [exchange_request
                   \<lparr> code = '''',
                     redirectUri = ''http://localhost:'' @ string_of_int p @ ''/callback'',
                     codeVerifier = verifier pk \<rparr>]))"
proof (intro conjI impI)
  have nf: "\<not> falsy (map_of q ''code'')"
    using c by (simp add: falsy_def)
  show "\<exists>es. console_error (handleCallback fetch now q w) = console_error w @ es \<and>
            (''[OAuth]'', ''Missing authorization code'') \<notin> set es"
  proof (cases "falsy (map_of q ''error'')")
    case False
    then show ?thesis
      by (simp add: handleCallback_def handleCallback_begin_def Let_def
          console_error_fail_callback)
  next
    case ne: True
    show ?thesis
    proof (cases "falsy (map_of q ''state'') \<or> map_of q ''state'' \<noteq> state (oauthState w)")
      case True
      with ne show ?thesis
        using csrf_blocks_exchange [of q w fetch now] by simp
    next
      case False
      then have a: "\<not> falsy (map_of q ''state'')"
        and b: "map_of q ''state'' = state (oauthState w)"
        by blast+
      have br: "handleCallback fetch now q w =
         (let authCode = strip_fragment (the (map_of q ''code''));
              w1 = w\<lparr>exchange_calls := exchange_calls w @ [authCode]\<rparr>
          in case exchangeCodeForTokens_params (oauthState w) authCode of
               Inl e \<Rightarrow> handleCallback_resume (Inl e) w1
             | Inr params \<Rightarrow>
                 handleCallback_resume (exchange_response now (fetch (exchange_request params)))
                   (w1\<lparr>fetches := fetches w @ [exchange_request params]\<rparr>))"
        by (rule handleCallback_exchange_branch [OF ne a b nf])
      show ?thesis
      proof (cases "exchangeCodeForTokens_params (oauthState w)
                      (strip_fragment (the (map_of q ''code'')))")
        case (Inl e)
        with br show ?thesis
          using console_error_handleCallback_resume [of "Inl e"
              "w\<lparr>exchange_calls := exchange_calls w @
                  [strip_fragment (the (map_of q ''code''))]\<rparr>"]
          by (simp add: Let_def)
      next
        case (Inr params)
        with br show ?thesis
          using console_error_handleCallback_resume
            [of "exchange_response now (fetch (exchange_request params))"
              "w\<lparr>exchange_calls := exchange_calls w @
                  [strip_fragment (the (map_of q ''code''))],
                fetches := fetches w @ [exchange_request params]\<rparr>"]
          by (simp add: Let_def)
      qed
    qed
  qed
next
  assume h: "falsy (map_of q ''error'') \<and> map_of q ''state'' = Some s \<and> s \<noteq> [] \<and>
             state (oauthState w) = Some s"
  have nf: "\<not> falsy (map_of q ''code'')"
    using c by (simp add: falsy_def)
  have strip: "strip_fragment (the (map_of q ''code'')) = []"
    using c by (simp add: strip_fragment_def)
  have ns: "\<not> falsy (map_of q ''state'')"
    using h by (simp add: falsy_def)
  have st_eq: "map_of q ''state'' = state (oauthState w)"
    using h by simp
  have er: "falsy (map_of q ''error'')"
    using h by simp
  have br: "handleCallback fetch now q w =
     (case exchangeCodeForTokens_params (oauthState w) [] of
        Inl e \<Rightarrow> handleCallback_resume (Inl e) (w\<lparr>exchange_calls := exchange_calls w @ [[]]\<rparr>)
      | Inr params \<Rightarrow>
          handleCallback_resume (exchange_response now (fetch (exchange_request params)))
            (w\<lparr>exchange_calls := exchange_calls w @ [[]],
               fetches := fetches w @ [exchange_request params]\<rparr>))"
    using handleCallback_exchange_branch [OF er ns st_eq nf, of fetch now] strip
    by (simp add: Let_def)
  show "exchange_calls (handleCallback fetch now q w) = exchange_calls w @ ['''']"
    by (simp add: br exchange_calls_handleCallback_resume split: sum.splits)
  show "\<forall>pk p. pkce (oauthState w) = Some pk \<and> port (oauthState w) = Some p \<and> p \<noteq> 0 \<longrightarrow>
          fetches (handleCallback fetch now q w) =
            fetches w @ [exchange_request
              \<lparr> code = '''',
                redirectUri = ''http://localhost:'' @ string_of_int p @ ''/callback'',
                codeVerifier = verifier pk \<rparr>]"
    by (simp add: br fetches_handleCallback_resume exchangeCodeForTokens_params_def)
qed

theorem fragment_code_reaches_exchange_witness:
  "map_of [(''code'', ''#frag''), (''state'', sample_state)] ''code'' = Some (CHR ''#'' # ''frag'') \<and>
   falsy (map_of [(''code'', ''#frag''), (''state'', sample_state)] ''error'') \<and>
   state (oauthState running_world) = Some sample_state \<and>
   exchange_calls (handleCallback sample_fetch 1700000000000
      [(''code'', ''#frag''), (''state'', sample_state)] running_world) = [''''] \<and>
   fetches (handleCallback sample_fetch 1700000000000
      [(''code'', ''#frag''), (''state'', sample_state)] running_world) =
     [exchange_request
        \<lparr> code = '''', redirectUri = ''http://localhost:21300/callback'',
          codeVerifier = ''AAECAwQFBgcICQoLDA0ODxAREhMUFRYXGBkaGxwdHh8'' \<rparr>] \<and>
   (''[OAuth]'', ''Missing authorization code'') \<notin>
     set (console_error (handleCallback sample_fetch 1700000000000
      [(''code'', ''#frag''), (''state'', sample_state)] running_world))"
proof -
  have c: "map_of [(''code'', ''#frag''), (''state'', sample_state)] ''code''
             = Some (CHR ''#'' # ''frag'')"
    by simp
  have e: "falsy (map_of [(''code'', ''#frag''), (''state'', sample_state)] ''error'')"
    by (simp add: falsy_def)
  have s: "map_of [(''code'', ''#frag''), (''state'', sample_state)] ''state'' = Some sample_state"
    by simp
  have ne: "sample_state \<noteq> []"
    by (simp add: sample_state_def)
  have st: "state (oauthState running_world) = Some sample_state"
    and pk: "pkce (oauthState running_world) =
       Some \<lparr> verifier = ''AAECAwQFBgcICQoLDA0ODxAREhMUFRYXGBkaGxwdHh8'',
              challenge = ''6oZqdX5MOLq_qBJ8vppAnT4fk6AP8UiP9zX8-Rev_9A'' \<rparr>"
    and pt: "port (oauthState running_world) = Some 21300"
    and ex: "exchange_calls running_world = []"
    and fe: "fetches running_world = []"
    and co: "console_error running_world = []"
    by (simp_all add: running_world_eq)
  have p: "string_of_int 21300 = ''21300''"
    by code_simp
  from fragment_code_reaches_exchange [OF c, of sample_fetch 1700000000000 running_world sample_state]
    e s ne st pk pt ex fe co p c
  show ?thesis by auto
qed

section \<open>Listeners\<close>

lemma listening_cleanup:
  "listening (cleanup w) =
     (case server (oauthState w) of
        None \<Rightarrow> listening w
      | Some s \<Rightarrow> filter (\<lambda>(s', p). s' \<noteq> s) (listening w))"
  by (simp add: cleanup_def Let_def split: option.splits)

lemma single_listener_cleanup:
  assumes "single_listener w"
  shows "listening (cleanup w) = []"
proof (cases "listening w")
  case Nil
  then show ?thesis
    by (simp add: listening_cleanup split: option.splits)
next
  case (Cons x xs)
  with assms obtain s p where "listening w = [(s, p)]" "server (oauthState w) = Some s"
    by (cases x; cases xs) (auto simp: single_listener_def)
  then show ?thesis
    by (simp add: listening_cleanup)
qed

lemma single_listener_transfer:
  "single_listener w \<Longrightarrow> listening w' = listening w \<Longrightarrow>
   server (oauthState w') = server (oauthState w) \<Longrightarrow> single_listener w'"
  unfolding single_listener_def by (auto split: list.splits)

lemma single_listener_idle:
  "listening w = [] \<Longrightarrow> single_listener w"
  by (simp add: single_listener_def)

lemma listening_settle: "listening (settle p v w) = listening w"
  by (simp add: settle_def)

lemma listening_fail_callback:
  "single_listener w \<Longrightarrow> listening (fail_callback label msg w) = []"
proof -
  assume a: "single_listener w"
  have "single_listener (respond 200 ''text/html'' (getErrorHTML msg) (log_error label msg w))"
    by (rule single_listener_transfer [OF a]) (simp_all add: respond_def log_error_def)
  then show ?thesis
    by (simp add: fail_callback_effect single_listener_cleanup)
qed

lemma listening_handleCallback_resume:
  "single_listener w \<Longrightarrow> listening (handleCallback_resume r w) = []"
proof (cases r)
  case (Inl e)
  assume "single_listener w"
  with Inl show ?thesis
    by (simp add: handleCallback_resume_def listening_fail_callback)
next
  case (Inr tokens)
  assume a: "single_listener w"
  have "single_listener (respond 200 ''text/html'' getSuccessHTML w)"
    by (rule single_listener_transfer [OF a]) (simp_all add: respond_def)
  with Inr show ?thesis
    by (simp add: handleCallback_resume_def Let_def call_resolveCallback_def
        resolveCallback_cleanup single_listener_cleanup)
qed

lemma listening_handleCallback:
  assumes a: "single_listener w"
  shows "listening (handleCallback fetch now q w) = []"
proof -
  have upd: "single_listener (w\<lparr>exchange_calls := xs\<rparr>)"
            "single_listener (w\<lparr>exchange_calls := xs, fetches := ys\<rparr>)" for xs ys
    by (rule single_listener_transfer [OF a], simp, simp)+
  show ?thesis
    by (simp add: handleCallback_def handleCallback_begin_def Let_def
        listening_fail_callback [OF a] listening_handleCallback_resume upd
        split: sum.splits)
qed

lemma single_listener_startOAuthFlow:
  assumes a: "single_listener w"
  shows "single_listener (snd (startOAuthFlow taken rnd1 rnd2 w))"
proof -
  define w1 where "w1 = (cleanup w)\<lparr>fresh := fresh (cleanup w) + 1\<rparr>"
  have l1: "listening w1 = []"
    using single_listener_cleanup [OF a] by (simp add: w1_def)
  have s1: "server (oauthState w1) = None"
    by (simp add: w1_def oauthState_cleanup idle_state_def)
  have st: "snd (startOAuthFlow taken rnd1 rnd2 w) =
              startOAuthFlow_bind taken rnd1 rnd2 (fresh (cleanup w)) w1"
    by (simp add: startOAuthFlow_def startOAuthFlow_begin_def Let_def w1_def)
  show ?thesis
  proof (cases "snd (findAvailablePort (port_binds taken w1)
                  OAUTH_CONFIG_portRange_min OAUTH_CONFIG_portRange_max)")
    case (Inl e)
    then have "listening (snd (startOAuthFlow taken rnd1 rnd2 w)) = []"
      using l1 s1
      by (simp add: st startOAuthFlow_bind_def listening_settle listening_cleanup)
    then show ?thesis by (rule single_listener_idle)
  next
    case (Inr prt)
    then show ?thesis
      using l1 s1
      by (simp add: st startOAuthFlow_bind_def Let_def server_listen_def single_listener_def
          listening_settle listening_cleanup port_binds_def)
  qed
qed

text \<open>
  When no two operations overlap, at most one listener is bound at any time, and it
  is the one the module state holds.
\<close>

lemma atomic_run_single_listener:
  "atomic_run w \<Longrightarrow> single_listener w \<and> length (listening w) \<le> 1"
proof (induction rule: atomic_run.induct)
  case run_init
  show ?case by (simp add: single_listener_def initial_world_def)
next
  case (run_start w taken rnd1 rnd2)
  then have "single_listener (snd (startOAuthFlow taken rnd1 rnd2 w))"
    by (simp add: single_listener_startOAuthFlow)
  then show ?case
    by (auto simp: single_listener_def split: list.splits)
next
  case (run_request w fetch now pathname q)
  then have a: "single_listener w" and b: "length (listening w) \<le> 1" by simp_all
  show ?case
  proof (cases "pathname = ''/callback''")
    case True
    then show ?thesis
      by (simp add: handleRequest_def listening_handleCallback [OF a] single_listener_idle)
  next
    case False
    then show ?thesis
      using b single_listener_transfer [OF a, of "handleRequest fetch now pathname q w"]
      by (simp add: handleRequest_def respond_def)
  qed
next
  case (run_cancel w)
  then have a: "single_listener w" by simp
  have "single_listener (call_rejectCallback (Error ''OAuth flow cancelled'') w)"
    by (rule single_listener_transfer [OF a])
      (simp_all add: call_rejectCallback_def settle_def split: option.splits)
  then have "listening (cancelOAuthFlow w) = []"
    by (simp add: cancelOAuthFlow_def single_listener_cleanup)
  then show ?case by (simp add: single_listener_idle)
next
  case (run_timeout w tid)
  then have a: "single_listener w" and b: "length (listening w) \<le> 1" by simp_all
  show ?case
  proof (cases "map_of (timers w) tid")
    case None
    then show ?thesis using a b by (simp add: timeout_fires_def)
  next
    case (Some p)
    have "single_listener (w\<lparr>timers := filter (\<lambda>(t', q). t' \<noteq> tid) (timers w)\<rparr>)"
      by (rule single_listener_transfer [OF a]) simp_all
    then have "listening (timeout_fires tid w) = []"
      using Some by (simp add: timeout_fires_def listening_settle single_listener_cleanup)
    then show ?thesis by (simp add: single_listener_idle)
  qed
next
  case (run_open_failed w p e)
  then have "listening (startOAuthFlow_open_failed p e w) = []"
    by (simp add: startOAuthFlow_open_failed_def listening_settle single_listener_cleanup)
  then show ?case by (simp add: single_listener_idle)
qed


text \<open>The port found when the first port of the range binds, or only the second.\<close>

lemma findAvailablePort_first:
  "mn \<le> mx \<Longrightarrow> valid_port mn \<Longrightarrow> binds mn \<Longrightarrow>
   snd (findAvailablePort binds mn mx) = Inr mn"
  by (simp add: findAvailablePort_def findAvailablePort_loop.simps [of binds mn mx mn]
      checkPortAvailable_def)

lemma findAvailablePort_second:
  "mn + 1 \<le> mx \<Longrightarrow> valid_port mn \<Longrightarrow> valid_port (mn + 1) \<Longrightarrow>
   \<not> binds mn \<Longrightarrow> binds (mn + 1) \<Longrightarrow>
   snd (findAvailablePort binds mn mx) = Inr (mn + 1)"
  by (simp add: findAvailablePort_def findAvailablePort_loop.simps [of binds mn mx mn]
      findAvailablePort_loop.simps [of binds mn mx "mn + 1"] checkPortAvailable_def)

text \<open>
  When a port is found, the continuation of \<open>startOAuthFlow\<close> binds a new server on
  it and stores that server in the module state; whatever was bound stays bound.
\<close>

lemma startOAuthFlow_bind_found:
  assumes f: "snd (findAvailablePort (port_binds taken w)
                OAUTH_CONFIG_portRange_min OAUTH_CONFIG_portRange_max) = Inr prt"
  shows "listening (startOAuthFlow_bind taken rnd1 rnd2 p w) = listening w @ [(fresh w, prt)] \<and>
         server (oauthState (startOAuthFlow_bind taken rnd1 rnd2 p w)) = Some (fresh w) \<and>
         rejectCallback (oauthState (startOAuthFlow_bind taken rnd1 rnd2 p w)) = Some p \<and>
         fresh (startOAuthFlow_bind taken rnd1 rnd2 p w) = fresh w + 2"
proof -
  obtain evs where "findAvailablePort_loop (port_binds taken w)
      OAUTH_CONFIG_portRange_min OAUTH_CONFIG_portRange_max OAUTH_CONFIG_portRange_min [] =
      (evs, Inr prt)"
    using f by (cases "findAvailablePort_loop (port_binds taken w)
      OAUTH_CONFIG_portRange_min OAUTH_CONFIG_portRange_max OAUTH_CONFIG_portRange_min []")
      (simp add: findAvailablePort_def)
  from findAvailablePort_loop_Inr [OF this] have b: "port_binds taken w prt"
    by simp
  have pb: "port_binds taken w' prt" if "listening w' = listening w" for w'
    using b that by (simp add: port_binds_def)
  show ?thesis
    using f by (simp add: startOAuthFlow_bind_def Let_def server_listen_def pb)
qed

text \<open>
  Claim C3 at two calls of \<open>startLocalAuth\<close>, the second made while the first is
  still looking for a port. Both pass the guard \<open>isOAuthFlowInProgress\<close>, because
  the server is stored only after the port has been found, and each runs \<open>cleanup()\<close>
  while there is nothing to tear down. The first flow then binds port 21300 and the
  second binds port 21301 without closing the first: two callback listeners are bound
  together. The module state refers to the second server only, so a later
  \<open>cancelOAuthFlow\<close> closes that one and the first listener stays bound.
\<close>

theorem overlapping_starts_two_listeners:
  "isOAuthFlowInProgress initial_world = False \<and>
   isOAuthFlowInProgress (snd (startOAuthFlow_begin initial_world)) = False \<and>
   map_sum id listening overlapping_starts = Inr [(2, 21300), (4, 21301)] \<and>
   map_sum id (\<lambda>w. server (oauthState w)) overlapping_starts = Inr (Some 4) \<and>
   map_sum id (\<lambda>w. listening (cancelOAuthFlow w)) overlapping_starts = Inr [(2, 21300)] \<and>
   map_sum id single_listener overlapping_starts = Inr False"
proof -
  define wB where "wB = initial_world\<lparr>fresh := 2\<rparr>"
  define wC where "wC = startOAuthFlow_bind (\<lambda>p. False) sample_rnd1 sample_rnd2 0 wB"
  define wD where "wD = startOAuthFlow_bind (\<lambda>p. False) sample_rnd2 sample_rnd1 1 wC"
  have g1: "isOAuthFlowInProgress initial_world = False"
    by (simp add: isOAuthFlowInProgress_def initial_world_def idle_state_def)
  have b1: "startOAuthFlow_begin initial_world = (0, initial_world\<lparr>fresh := Suc 0\<rparr>)"
    by (simp add: startOAuthFlow_begin_def Let_def cleanup_def initial_world_def idle_state_def)
  have g2: "isOAuthFlowInProgress (initial_world\<lparr>fresh := Suc 0\<rparr>) = False"
    by (simp add: isOAuthFlowInProgress_def initial_world_def idle_state_def)
  have b2: "startOAuthFlow_begin (initial_world\<lparr>fresh := Suc 0\<rparr>) = (Suc 0, wB)"
    by (simp add: startOAuthFlow_begin_def Let_def cleanup_def initial_world_def idle_state_def
        wB_def)
  have os: "overlapping_starts = Inr wD"
    by (simp add: overlapping_starts_def startLocalAuth_begin_def g1 g2 b1 b2 wC_def wD_def)
  have lB: "listening wB = []" and fB: "fresh wB = 2"
    by (simp_all add: wB_def initial_world_def)
  have pB: "snd (findAvailablePort (port_binds (\<lambda>p. False) wB)
              OAUTH_CONFIG_portRange_min OAUTH_CONFIG_portRange_max) = Inr 21300"
    using findAvailablePort_first [of 21300 21399 "port_binds (\<lambda>p. False) wB"]
    by (simp add: OAUTH_CONFIG_portRange_min_def OAUTH_CONFIG_portRange_max_def
        port_binds_def valid_port_def lB)
  from startOAuthFlow_bind_found [OF pB, of sample_rnd1 sample_rnd2 0]
  have lC: "listening wC = [(2, 21300)]" and fC: "fresh wC = 4"
    by (simp_all add: wC_def lB fB)
  have pC: "snd (findAvailablePort (port_binds (\<lambda>p. False) wC)
              OAUTH_CONFIG_portRange_min OAUTH_CONFIG_portRange_max) = Inr 21301"
    using findAvailablePort_second [of 21300 21399 "port_binds (\<lambda>p. False) wC"]
    by (simp add: OAUTH_CONFIG_portRange_min_def OAUTH_CONFIG_portRange_max_def
        port_binds_def valid_port_def lC)
  from startOAuthFlow_bind_found [OF pC, of sample_rnd2 sample_rnd1 1]
  have lD: "listening wD = [(2, 21300), (4, 21301)]"
    and sD: "server (oauthState wD) = Some 4"
    and rD: "rejectCallback (oauthState wD) = Some 1"
    by (simp_all add: wD_def lC fC)
  have cD: "listening (cancelOAuthFlow wD) = [(2, 21300)]"
    by (simp add: cancelOAuthFlow_def listening_cleanup call_rejectCallback_def rD settle_def
        lD sD)
  have nD: "single_listener wD = False"
    by (simp add: single_listener_def lD)
  show ?thesis
    by (simp add: os g1 b1 g2 lD sD cD nD)
qed

section \<open>Base64: decoding what was encoded\<close>

lemma unbase64_b64_alphabet:
  "\<forall>i\<in>set [0..<64]. unbase64 (b64_alphabet ! i) = Some i \<and> b64_alphabet ! i \<noteq> CHR ''=''"
  by code_simp

lemma unbase64_b64url_alphabet:
  "\<forall>i\<in>set [0..<64]. unbase64 (b64url_alphabet ! i) = Some i \<and> b64url_alphabet ! i \<noteq> CHR ''=''"
  by code_simp

lemma b64_sextets_Cons:
  assumes "al = b64_alphabet \<or> al = b64url_alphabet" and "i < 64"
  shows "b64_sextets (al ! i # cs) = i # b64_sextets cs"
proof -
  from assms(2) have "i \<in> set [0..<64]" by simp
  with assms(1) unbase64_b64_alphabet unbase64_b64url_alphabet
  have "unbase64 (al ! i) = Some i \<and> al ! i \<noteq> CHR ''=''"
    by blast
  then show ?thesis by simp
qed

text \<open>The arithmetic of a group: four sextets below 64 that give the bytes back.\<close>

lemma unat_byte_less: "unat (a :: byte) < 256"
  using unsigned_less [of a, where ?'a = nat] by simp

lemma sextet_bytes1:
  fixes a b :: nat
  assumes "b < 256"
  shows "(a div 4) * 4 + ((a mod 4) * 16 + b div 16) div 16 = a"
proof -
  have "b div 16 div 16 = 0" using assms by (simp add: div_mult2_eq [symmetric])
  then have "((a mod 4) * 16 + b div 16) div 16 = a mod 4" by simp
  then show ?thesis by simp
qed

lemma sextet_bytes2:
  fixes a b c :: nat
  assumes "b < 256" "c < 256"
  shows "(((a mod 4) * 16 + b div 16) mod 16) * 16 + ((b mod 16) * 4 + c div 64) div 4 = b"
proof -
  have 1: "b div 16 < 16" using assms by simp
  have "c div 64 div 4 = 0" using assms by (simp add: div_mult2_eq [symmetric])
  then have 2: "((b mod 16) * 4 + c div 64) div 4 = b mod 16" by simp
  show ?thesis using 1 by (simp add: 2)
qed

lemma sextet_bytes3:
  fixes b c :: nat
  assumes "c < 256"
  shows "(((b mod 16) * 4 + c div 64) mod 4) * 64 + c mod 64 = c"
proof -
  have "c div 64 < 4" using assms by simp
  then show ?thesis by simp
qed

lemma sextet_bytes4:
  fixes a :: nat
  shows "(a div 4) * 4 + ((a mod 4) * 16) div 16 = a"
  by simp

lemma sextet_bytes5:
  fixes a b :: nat
  assumes "b < 256"
  shows "(((a mod 4) * 16 + b div 16) mod 16) * 16 + ((b mod 16) * 4) div 4 = b"
proof -
  have "b div 16 < 16" using assms by simp
  then show ?thesis by simp
qed

lemma sextet_bounds:
  fixes a b c :: nat
  assumes "a < 256" "b < 256" "c < 256"
  shows "a div 4 < 64" "(a mod 4) * 16 + b div 16 < 64" "(b mod 16) * 4 + c div 64 < 64"
    "c mod 64 < 64" "(a mod 4) * 16 < 64" "(b mod 16) * 4 < 64"
proof -
  have "a mod 4 < 4" "b mod 16 < 16" by simp_all
  moreover have "b div 16 < 16" "c div 64 < 4" "a div 4 < 64" using assms by simp_all
  ultimately show "a div 4 < 64" "(a mod 4) * 16 + b div 16 < 64"
    "(b mod 16) * 4 + c div 64 < 64" "c mod 64 < 64" "(a mod 4) * 16 < 64" "(b mod 16) * 4 < 64"
    by simp_all
qed

lemma b64_sextets_tail:
  "b64_sextets (if padded then ''=='' else []) = []"
  "b64_sextets (if padded then ''='' else []) = []"
  by simp_all

lemma from_base64_b64_encode:
  "al = b64_alphabet \<or> al = b64url_alphabet \<Longrightarrow>
   b64_bytes (b64_sextets (b64_encode al padded bs)) = bs"
proof (induction al padded bs rule: b64_encode.induct)
  case (1 al padded)
  show ?case by simp
next
  case (2 al padded a)
  note al = "2.prems"
  have b: "unat a div 4 < 64" "unat a mod 4 * 16 < 64"
    using sextet_bounds [OF unat_byte_less [of a] unat_byte_less [of a] unat_byte_less [of a]] by simp_all
  have "b64_sextets (b64_encode al padded [a]) = [unat a div 4, unat a mod 4 * 16]"
    by (simp del: b64_sextets.simps
        add: b64_sextets_Cons [OF al b(1)] b64_sextets_Cons [OF al b(2)] b64_sextets_tail)
  then show ?case
    using sextet_bytes4 [of "unat a"] by simp
next
  case (3 al padded a b)
  note al = "3.prems"
  have b: "unat a div 4 < 64" "unat a mod 4 * 16 + unat b div 16 < 64" "unat b mod 16 * 4 < 64"
    using sextet_bounds [OF unat_byte_less [of a] unat_byte_less [of b] unat_byte_less [of b]] by simp_all
  have "b64_sextets (b64_encode al padded [a, b]) =
          [unat a div 4, unat a mod 4 * 16 + unat b div 16, unat b mod 16 * 4]"
    by (simp del: b64_sextets.simps
        add: b64_sextets_Cons [OF al b(1)] b64_sextets_Cons [OF al b(2)]
          b64_sextets_Cons [OF al b(3)] b64_sextets_tail)
  then show ?case
    using sextet_bytes1 [OF unat_byte_less [of b], of "unat a"] sextet_bytes5 [OF unat_byte_less [of b], of "unat a"]
    by simp
next
  case (4 al padded a b c rest)
  note al = "4.prems"
  have b: "unat a div 4 < 64" "unat a mod 4 * 16 + unat b div 16 < 64"
    "unat b mod 16 * 4 + unat c div 64 < 64" "unat c mod 64 < 64"
    using sextet_bounds [OF unat_byte_less [of a] unat_byte_less [of b] unat_byte_less [of c]] by simp_all
  have "b64_sextets (b64_encode al padded (a # b # c # rest)) =
          unat a div 4 # (unat a mod 4 * 16 + unat b div 16) #
          (unat b mod 16 * 4 + unat c div 64) # unat c mod 64 #
          b64_sextets (b64_encode al padded rest)"
    by (simp del: b64_sextets.simps
        add: b64_sextets_Cons [OF al b(1)] b64_sextets_Cons [OF al b(2)]
          b64_sextets_Cons [OF al b(3)] b64_sextets_Cons [OF al b(4)])
  then show ?case
    using "4.IH" [OF al] sextet_bytes1 [OF unat_byte_less [of b], of "unat a"]
      sextet_bytes2 [OF unat_byte_less [of b] unat_byte_less [of c], of "unat a"]
      sextet_bytes3 [OF unat_byte_less [of c], of "unat b"]
    by simp
qed

lemma from_base64_toString_base64: "from_base64 (toString_base64 buf) = buf"
  by (simp add: from_base64_def toString_base64_def from_base64_b64_encode)

lemma from_base64_toString_base64url: "from_base64 (toString_base64url buf) = buf"
  by (simp add: from_base64_def toString_base64url_def from_base64_b64_encode)

lemma length_b64_encode_unpadded:
  "length (b64_encode al False bs) = (4 * length bs + 2) div 3"
  by (induction al "False" bs rule: b64_encode.induct) simp_all

lemma b64_encode_eq_Nil: "b64_encode al padded bs = [] \<longleftrightarrow> bs = []"
  by (induction al padded bs rule: b64_encode.induct) simp_all

lemma utf8_string_utf8_bytes: "utf8_string (utf8_bytes s) = s"
  by (induction s) (simp_all add: utf8_string_def utf8_bytes_def uint_word_of_int)

section \<open>The PKCE pair\<close>

lemma length_round256: "length (round256 s kw) = length s"
  by (induction s kw rule: round256.induct) (simp_all add: Let_def)

lemma length_foldl_round256: "length (foldl round256 s kws) = length s"
  by (induction kws arbitrary: s) (simp_all add: length_round256)

lemma length_compress: "length (compress hs block) = length hs"
  by (simp add: compress_def Let_def length_foldl_round256)

lemma length_foldl_compress: "length (foldl compress hs bs) = length hs"
  by (induction bs arbitrary: hs) (simp_all add: length_compress)

lemma length_concat_be32: "length (concat (map be32 ws)) = 4 * length ws"
  by (induction ws) (simp_all add: be32_def)

lemma length_sha256: "length (sha256 m) = 32"
  by (simp add: sha256_def length_concat_be32 length_foldl_compress H256_def)

lemma generatePKCE_sample:
  "generatePKCE sample_rnd1 =
     \<lparr> verifier = ''AAECAwQFBgcICQoLDA0ODxAREhMUFRYXGBkaGxwdHh8'',
       challenge = ''6oZqdX5MOLq_qBJ8vppAnT4fk6AP8UiP9zX8-Rev_9A'' \<rparr>"
  by code_simp

lemma sha256_sample_raw:
  "toString_base64url (sha256 (sample_rnd1 32)) = ''Yw3NKWbEM2aRElRIu7JbT_QSpJxzLbLIq8G4WBvXEN0''"
  by code_simp

text \<open>
  Claim C4, as stated, at the random bytes \<open>0, 1, \<dots>, 31\<close>: the verifier is their
  base64url encoding and decodes back to them, but the challenge is not the base64url
  encoding of the SHA-256 digest of these 32 bytes.
\<close>

theorem generatePKCE_raw_digest_counterexample:
  "length (sample_rnd1 32) = 32 \<and>
   verifier (generatePKCE sample_rnd1) = toString_base64url (sample_rnd1 32) \<and>
   from_base64 (verifier (generatePKCE sample_rnd1)) = sample_rnd1 32 \<and>
   challenge (generatePKCE sample_rnd1) = ''6oZqdX5MOLq_qBJ8vppAnT4fk6AP8UiP9zX8-Rev_9A'' \<and>
   toString_base64url (sha256 (from_base64 (verifier (generatePKCE sample_rnd1)))) =
     ''Yw3NKWbEM2aRElRIu7JbT_QSpJxzLbLIq8G4WBvXEN0'' \<and>
   challenge (generatePKCE sample_rnd1) \<noteq>
     toString_base64url (sha256 (from_base64 (verifier (generatePKCE sample_rnd1))))"
proof -
  have v: "verifier (generatePKCE sample_rnd1) = toString_base64url (sample_rnd1 32)"
    by (simp add: generatePKCE_def Let_def)
  have d: "from_base64 (verifier (generatePKCE sample_rnd1)) = sample_rnd1 32"
    by (simp add: v from_base64_toString_base64url)
  have l: "length (sample_rnd1 32) = 32"
    by (simp add: sample_rnd1_def)
  have c: "challenge (generatePKCE sample_rnd1) = ''6oZqdX5MOLq_qBJ8vppAnT4fk6AP8UiP9zX8-Rev_9A''"
    by (simp add: generatePKCE_sample)
  show ?thesis
    by (simp add: l v [symmetric] d c sha256_sample_raw)
qed

text \<open>
  Claim C4, amended. For every generated PKCE pair, the verifier is the base64url
  encoding of the 32 random bytes (43 characters, which decode back to these bytes),
  and the challenge is the base64url encoding (43 characters) of the SHA-256 digest of
  the verifier string itself, that is, of its 43 characters as bytes.
\<close>

theorem generatePKCE_challenge:
  assumes "length (randomBytes 32) = 32"
  shows "verifier (generatePKCE randomBytes) = toString_base64url (randomBytes 32) \<and>
         length (verifier (generatePKCE randomBytes)) = 43 \<and>
         from_base64 (verifier (generatePKCE randomBytes)) = randomBytes 32 \<and>
         challenge (generatePKCE randomBytes) =
           toString_base64url (sha256 (utf8_bytes (verifier (generatePKCE randomBytes)))) \<and>
         length (utf8_bytes (verifier (generatePKCE randomBytes))) = 43 \<and>
         length (challenge (generatePKCE randomBytes)) = 43"
proof -
  have v: "verifier (generatePKCE randomBytes) = toString_base64url (randomBytes 32)"
    and c: "challenge (generatePKCE randomBytes) =
           toString_base64url (sha256 (utf8_bytes (verifier (generatePKCE randomBytes))))"
    by (simp_all add: generatePKCE_def Let_def)
  have lv: "length (toString_base64url (randomBytes 32)) = 43"
    using assms by (simp add: toString_base64url_def length_b64_encode_unpadded)
  have lc: "length (toString_base64url (sha256 m)) = 43" for m
    by (simp add: toString_base64url_def length_b64_encode_unpadded length_sha256)
  have d: "from_base64 (toString_base64url (randomBytes 32)) = randomBytes 32"
    by (rule from_base64_toString_base64url)
  have lu: "length (utf8_bytes s) = length s" for s
    by (simp add: utf8_bytes_def)
  show ?thesis
    unfolding c unfolding v by (simp add: lv lc d lu)
qed

theorem generatePKCE_challenge_witness:
  "length (sample_rnd1 32) = 32 \<and>
   verifier (generatePKCE sample_rnd1) = ''AAECAwQFBgcICQoLDA0ODxAREhMUFRYXGBkaGxwdHh8'' \<and>
   from_base64 ''AAECAwQFBgcICQoLDA0ODxAREhMUFRYXGBkaGxwdHh8'' = sample_rnd1 32 \<and>
   challenge (generatePKCE sample_rnd1) =
     toString_base64url (sha256 (utf8_bytes ''AAECAwQFBgcICQoLDA0ODxAREhMUFRYXGBkaGxwdHh8'')) \<and>
   challenge (generatePKCE sample_rnd1) = ''6oZqdX5MOLq_qBJ8vppAnT4fk6AP8UiP9zX8-Rev_9A''"
proof -
  have l: "length (sample_rnd1 32) = 32"
    by (simp add: sample_rnd1_def)
  from generatePKCE_challenge [of sample_rnd1, OF l]
  have d: "from_base64 (verifier (generatePKCE sample_rnd1)) = sample_rnd1 32"
    and c: "challenge (generatePKCE sample_rnd1) =
      toString_base64url (sha256 (utf8_bytes (verifier (generatePKCE sample_rnd1))))"
    by blast+
  from d c l show ?thesis
    by (simp add: generatePKCE_sample)
qed

section \<open>Storing a token and reading it back\<close>

lemma find_append_new:
  "P r \<Longrightarrow> find P (filter (\<lambda>x. \<not> P x) db @ [r]) = Some r"
  by (induction db) simp_all

lemma db_select_store:
  "row_id r = i \<Longrightarrow> db_select i (db_insert r (db_delete i db)) = Some r"
  using find_append_new [of "\<lambda>x. row_id x = i" r db]
  by (simp add: db_select_def db_insert_def db_delete_def)

lemma one_default_row:
  "row_id r = i \<Longrightarrow> filter (\<lambda>x. row_id x = i) (db_insert r (db_delete i db)) = [r]"
  by (induction db) (simp_all add: db_insert_def db_delete_def)

lemma toString_base64_eq_Nil: "toString_base64 buf = [] \<longleftrightarrow> buf = []"
  by (simp add: toString_base64_def b64_encode_eq_Nil)

lemma utf8_bytes_eq_Nil: "utf8_bytes s = [] \<longleftrightarrow> s = []"
  by (simp add: utf8_bytes_def)

text \<open>
  Claim C7, as stated, at the empty token with the base64 fallback (what
  \<open>importToken\<close> stores for the input \<open>" "\<close>, which it trims): the token is stored
  as the empty string, and reading it back answers that nothing is connected.
\<close>

theorem store_empty_token_counterexample:
  "isEncryptionAvailable plain_storage = False \<and>
   storeOAuthToken plain_storage 1700000000000 '''' [old_row] =
     Inr [\<lparr> row_id = ''default'', oauthToken = '''', connectedAt = 1700000000000,
            userId = None \<rparr>] \<and>
   getToken plain_storage
     [\<lparr> row_id = ''default'', oauthToken = '''', connectedAt = 1700000000000,
        userId = None \<rparr>] = \<lparr> token = None, error = Some ''Not connected'' \<rparr>"
  by code_simp

text \<open>
  Claim C7, amended. Storing a token (encrypt, delete the record with the fixed id,
  insert the new one) and then reading it (select, decrypt) yields the same token,
  with exactly one record left under the fixed id: with the base64 fallback used for
  both operations, for every non-empty token; with \<open>safeStorage\<close> encryption
  available for both, for every token that \<open>encryptString\<close> turns into a non-empty
  ciphertext which \<open>decryptString\<close> turns back into the token.
\<close>

theorem store_then_getToken:
  assumes enc: "isEncryptionAvailable ss \<Longrightarrow>
      \<exists>ct. encryptString ss tok = Inr ct \<and> ct \<noteq> [] \<and> decryptString ss ct = Inr tok"
    and plain: "\<not> isEncryptionAvailable ss \<Longrightarrow> tok \<noteq> []"
  shows "\<exists>db'. storeOAuthToken ss now tok db = Inr db' \<and>
           getToken ss db' = \<lparr> token = Some tok, error = None \<rparr> \<and>
           length (filter (\<lambda>r. row_id r = ''default'') db') = 1"
proof (cases "isEncryptionAvailable ss")
  case False
  let ?e = "toString_base64 (utf8_bytes tok)"
  let ?r = "\<lparr> row_id = ''default'', oauthToken = ?e, connectedAt = now, userId = None \<rparr>"
  let ?db = "db_insert ?r (db_delete ''default'' db)"
  have s: "storeOAuthToken ss now tok db = Inr ?db"
    using False by (simp add: storeOAuthToken_def encryptToken_def)
  have ne: "?e \<noteq> []"
    using plain [OF False] by (simp add: toString_base64_eq_Nil utf8_bytes_eq_Nil)
  have d: "decryptToken ss ?e = Inr tok"
    using False
    by (simp add: decryptToken_def from_base64_toString_base64 utf8_string_utf8_bytes)
  have g: "getToken ss ?db = \<lparr> token = Some tok, error = None \<rparr>"
    using ne d by (simp add: getToken_def db_select_store)
  have o: "length (filter (\<lambda>r. row_id r = ''default'') ?db) = 1"
    by (simp add: one_default_row)
  from s g o show ?thesis by blast
next
  case True
  from enc [OF True] obtain ct where ct: "encryptString ss tok = Inr ct" "ct \<noteq> []"
    "decryptString ss ct = Inr tok"
    by blast
  let ?e = "toString_base64 ct"
  let ?r = "\<lparr> row_id = ''default'', oauthToken = ?e, connectedAt = now, userId = None \<rparr>"
  let ?db = "db_insert ?r (db_delete ''default'' db)"
  have s: "storeOAuthToken ss now tok db = Inr ?db"
    using True ct(1) by (simp add: storeOAuthToken_def encryptToken_def)
  have ne: "?e \<noteq> []"
    using ct(2) by (simp add: toString_base64_eq_Nil)
  have d: "decryptToken ss ?e = Inr tok"
    using True ct(3) by (simp add: decryptToken_def Let_def from_base64_toString_base64)
  have g: "getToken ss ?db = \<lparr> token = Some tok, error = None \<rparr>"
    using ne d by (simp add: getToken_def db_select_store)
  have o: "length (filter (\<lambda>r. row_id r = ''default'') ?db) = 1"
    by (simp add: one_default_row)
  from s g o show ?thesis by blast
qed

theorem store_then_getToken_witness:
  "(\<exists>db'. storeOAuthToken plain_storage 1700000000000 ''sk-ant-oat01-abc'' [old_row] = Inr db' \<and>
      getToken plain_storage db' = \<lparr> token = Some ''sk-ant-oat01-abc'', error = None \<rparr> \<and>
      length (filter (\<lambda>r. row_id r = ''default'') db') = 1) \<and>
   (\<exists>db'. storeOAuthToken toy_storage 1700000000000 ''sk-ant-oat01-abc'' [old_row] = Inr db' \<and>
      getToken toy_storage db' = \<lparr> token = Some ''sk-ant-oat01-abc'', error = None \<rparr> \<and>
      length (filter (\<lambda>r. row_id r = ''default'') db') = 1)"
proof -
  have p1: "\<not> isEncryptionAvailable plain_storage"
    by (simp add: plain_storage_def)
  have p2: "''sk-ant-oat01-abc'' \<noteq> []"
    by simp
  have t1: "isEncryptionAvailable toy_storage"
    by (simp add: toy_storage_def)
  have t2: "encryptString toy_storage ''sk-ant-oat01-abc'' =
              Inr (utf8_bytes ''v10'' @ map (\<lambda>b. b XOR 0x5A) (utf8_bytes ''sk-ant-oat01-abc''))"
    by (simp add: toy_storage_def)
  have t3: "utf8_bytes ''v10'' @ map (\<lambda>b. b XOR 0x5A) (utf8_bytes ''sk-ant-oat01-abc'') \<noteq> []"
    by (simp add: utf8_bytes_def)
  have t4: "decryptString toy_storage
              (utf8_bytes ''v10'' @ map (\<lambda>b. b XOR 0x5A) (utf8_bytes ''sk-ant-oat01-abc''))
            = Inr ''sk-ant-oat01-abc''"
    by code_simp
  have t: "\<exists>ct. encryptString toy_storage ''sk-ant-oat01-abc'' = Inr ct \<and> ct \<noteq> [] \<and>
             decryptString toy_storage ct = Inr ''sk-ant-oat01-abc''"
    using t2 t3 t4 by blast
  have a: "\<exists>db'. storeOAuthToken plain_storage 1700000000000 ''sk-ant-oat01-abc'' [old_row] = Inr db' \<and>
      getToken plain_storage db' = \<lparr> token = Some ''sk-ant-oat01-abc'', error = None \<rparr> \<and>
      length (filter (\<lambda>r. row_id r = ''default'') db') = 1"
    by (rule store_then_getToken) (use p1 p2 in simp_all)
  have b: "\<exists>db'. storeOAuthToken toy_storage 1700000000000 ''sk-ant-oat01-abc'' [old_row] = Inr db' \<and>
      getToken toy_storage db' = \<lparr> token = Some ''sk-ant-oat01-abc'', error = None \<rparr> \<and>
      length (filter (\<lambda>r. row_id r = ''default'') db') = 1"
    by (rule store_then_getToken) (use t t1 in simp_all)
  from a b show ?thesis by (rule conjI)
qed

section \<open>Reading existing credentials: what is swallowed and what is thrown\<close>

lemma credentials_of_text_Some:
  assumes "credentials_of_text m text = Inr (Some c)"
  shows "\<exists>j oa. JSON_parse m text = Inr j \<and> get_prop j ''claudeAiOauth'' = Inr (Some oa) \<and>
           truthy oa \<and> credential_of oa = Inr c"
proof -
  from assms obtain j where j: "JSON_parse m text = Inr j"
    by (cases "JSON_parse m text") (simp_all add: credentials_of_text_def)
  from assms j obtain oa where oa: "get_prop j ''claudeAiOauth'' = Inr (Some oa)"
    by (cases "get_prop j ''claudeAiOauth''")
      (auto simp: credentials_of_text_def split: option.splits)
  from assms j oa have t: "truthy oa"
    by (simp add: credentials_of_text_def split: if_splits)
  from assms j oa t have "credential_of oa = Inr c"
    by (cases "credential_of oa") (simp_all add: credentials_of_text_def)
  with j oa t show ?thesis by blast
qed

lemma exec_lookup_Some:
  "exec_lookup m command = Inr (Some c) \<Longrightarrow> \<exists>text. credentials_of_text m text = Inr (Some c)"
  by (cases "execSync m command") (auto simp: exec_lookup_def Let_def split: if_splits)

lemma file_lookup_Some:
  "file_lookup m path = Inr (Some c) \<Longrightarrow> \<exists>text. credentials_of_text m text = Inr (Some c)"
  by (cases "readFileSync m path") (auto simp: file_lookup_def split: if_splits)

lemma try_catch_result:
  assumes "\<And>c. body = Inr (Some c) \<Longrightarrow> P c"
  shows "\<exists>r. try_catch body = Inr r \<and> (\<forall>c. r = Some c \<longrightarrow> P c)"
proof (cases body)
  case (Inl e)
  then show ?thesis by (simp add: try_catch_def)
next
  case (Inr v)
  then have "try_catch body = Inr v" by (simp add: try_catch_def)
  moreover have "\<forall>c. v = Some c \<longrightarrow> P c" using Inr assms by simp
  ultimately show ?thesis by blast
qed

lemma exec_lookup_result:
  "\<exists>r. try_catch (exec_lookup m command) = Inr r \<and>
        (\<forall>c. r = Some c \<longrightarrow> (\<exists>text. credentials_of_text m text = Inr (Some c)))"
  by (rule try_catch_result) (rule exec_lookup_Some)

lemma file_lookup_result:
  "\<exists>r. try_catch (file_lookup m path) = Inr r \<and>
        (\<forall>c. r = Some c \<longrightarrow> (\<exists>text. credentials_of_text m text = Inr (Some c)))"
  by (rule try_catch_result) (rule file_lookup_Some)

lemma readFromLinuxSecretService_result:
  "\<exists>r. readFromLinuxSecretService m = Inr r \<and>
        (\<forall>c. r = Some c \<longrightarrow> (\<exists>text. credentials_of_text m text = Inr (Some c)))"
proof -
  let ?a = "exec_lookup m
           (''secret-tool lookup service '' @ [CHR 0x22] @ ''Claude Code'' @ [CHR 0x22]
            @ '' account '' @ [CHR 0x22] @ ''credentials'' @ [CHR 0x22] @ '' 2>/dev/null'')"
  let ?b = "exec_lookup m ''pass show claude-code/credentials 2>/dev/null''"
  obtain v where v: "try_catch ?a = Inr v"
    and vc: "\<forall>c. v = Some c \<longrightarrow> (\<exists>text. credentials_of_text m text = Inr (Some c))"
    using exec_lookup_result [of m] by blast
  show ?thesis
  proof (cases v)
    case None
    with v have "readFromLinuxSecretService m = try_catch ?b"
      by (simp add: readFromLinuxSecretService_def)
    then show ?thesis
      using exec_lookup_result [of m "''pass show claude-code/credentials 2>/dev/null''"]
      by simp
  next
    case (Some c)
    with v have "readFromLinuxSecretService m = Inr (Some c)"
      by (simp add: readFromLinuxSecretService_def)
    with vc Some show ?thesis by simp
  qed
qed

lemma readFromWindowsCredentialManager_result:
  "\<exists>r. readFromWindowsCredentialManager m = Inr r \<and>
        (\<forall>c. r = Some c \<longrightarrow> (\<exists>text. credentials_of_text m text = Inr (Some c)))"
proof (cases "homedir m")
  case (Inl e)
  then show ?thesis
    by (simp add: readFromWindowsCredentialManager_def try_catch_def)
next
  case (Inr home)
  then show ?thesis
    using file_lookup_result [of m "join m [home, ''.claude'', ''.credentials.json'']"]
    by (simp add: readFromWindowsCredentialManager_def Let_def)
qed

text \<open>The keychain readers swallow every error, also that of \<open>os.homedir()\<close>.\<close>

lemma readFromKeychain_result:
  "\<exists>r. readFromKeychain m = Inr r \<and>
        (\<forall>c. r = Some c \<longrightarrow> (\<exists>text. credentials_of_text m text = Inr (Some c)))"
  using exec_lookup_result [of m] readFromWindowsCredentialManager_result [of m]
    readFromLinuxSecretService_result [of m]
  by (simp add: readFromKeychain_def readFromMacOSKeychain_def)

lemma readFromCredentialsFile_result:
  "homedir m = Inr home \<Longrightarrow>
   \<exists>r. readFromCredentialsFile m = Inr r \<and>
        (\<forall>c. r = Some c \<longrightarrow> (\<exists>text. credentials_of_text m text = Inr (Some c)))"
  using file_lookup_result [of m "join m [home, ''.claude'', ''.credentials.json'']"]
  by (simp add: readFromCredentialsFile_def Let_def)

lemma readFromCredentialsFile_throws:
  "homedir m = Inl e \<Longrightarrow> readFromCredentialsFile m = Inl e"
  by (simp add: readFromCredentialsFile_def)

lemma exec_fails_lookup: "execSync m command = Inl e \<Longrightarrow> try_catch (exec_lookup m command) = Inr None"
  by (simp add: exec_lookup_def try_catch_def)

lemma file_fails_lookup:
  "existsSync m path \<longrightarrow> (\<exists>e. readFileSync m path = Inl e) \<Longrightarrow>
   try_catch (file_lookup m path) = Inr None"
  by (auto simp: file_lookup_def try_catch_def)

lemma parse_fails_text: "\<forall>t. \<exists>e. JSON_parse m t = Inl e \<Longrightarrow> \<exists>e. credentials_of_text m text = Inl e"
proof -
  assume "\<forall>t. \<exists>e. JSON_parse m t = Inl e"
  then obtain e where "JSON_parse m text = Inl e" by blast
  then show ?thesis by (simp add: credentials_of_text_def)
qed

lemma parse_fails_exec:
  assumes "\<forall>t. \<exists>e. JSON_parse m t = Inl e"
  shows "try_catch (exec_lookup m command) = Inr None"
proof (cases "execSync m command")
  case (Inl e)
  then show ?thesis by (rule exec_fails_lookup)
next
  case (Inr out)
  obtain e where "credentials_of_text m (trim out) = Inl e"
    using parse_fails_text [OF assms] by blast
  with Inr show ?thesis
    by (simp add: exec_lookup_def Let_def try_catch_def)
qed

lemma parse_fails_file:
  assumes "\<forall>t. \<exists>e. JSON_parse m t = Inl e"
  shows "try_catch (file_lookup m path) = Inr None"
proof (cases "existsSync m path")
  case False
  then show ?thesis by (simp add: file_lookup_def try_catch_def)
next
  case True
  show ?thesis
  proof (cases "readFileSync m path")
    case (Inl e)
    with True show ?thesis by (simp add: file_lookup_def try_catch_def)
  next
    case (Inr content)
    obtain e where "credentials_of_text m content = Inl e"
      using parse_fails_text [OF assms] by blast
    with True Inr show ?thesis by (simp add: file_lookup_def try_catch_def)
  qed
qed

text \<open>
  Where \<open>os.homedir()\<close> returns, \<open>getExistingClaudeCredentials\<close> does not throw:
  whatever the commands, the file reads and \<open>JSON.parse\<close> return or throw, it
  returns \<open>null\<close> or a credential built from the truthy \<open>claudeAiOauth\<close> member of
  a text that parsed. Those errors are swallowed and count as not found: when every
  command fails and every existing file cannot be read, and likewise when no text
  parses, the result is \<open>null\<close>.
\<close>

lemma getExistingClaudeCredentials_returns:
  assumes home: "homedir m = Inr home"
  shows
  "(\<exists>r. getExistingClaudeCredentials m = Inr r \<and>
      (\<forall>c. r = Some c \<longrightarrow>
         (\<exists>text j oa. JSON_parse m text = Inr j \<and>
            get_prop j ''claudeAiOauth'' = Inr (Some oa) \<and> truthy oa \<and>
            credential_of oa = Inr c))) \<and>
   ((\<forall>command. \<exists>e. execSync m command = Inl e) \<and>
    (\<forall>path. existsSync m path \<longrightarrow> (\<exists>e. readFileSync m path = Inl e)) \<longrightarrow>
      getExistingClaudeCredentials m = Inr None) \<and>
   ((\<forall>t. \<exists>e. JSON_parse m t = Inl e) \<longrightarrow> getExistingClaudeCredentials m = Inr None)"
proof (intro conjI impI)
  obtain k where k: "readFromKeychain m = Inr k"
    and kc: "\<forall>c. k = Some c \<longrightarrow> (\<exists>text. credentials_of_text m text = Inr (Some c))"
    using readFromKeychain_result by blast
  obtain f where f: "readFromCredentialsFile m = Inr f"
    and fc: "\<forall>c. f = Some c \<longrightarrow> (\<exists>text. credentials_of_text m text = Inr (Some c))"
    using readFromCredentialsFile_result [OF home] by blast
  have "\<exists>r. getExistingClaudeCredentials m = Inr r \<and>
          (\<forall>c. r = Some c \<longrightarrow> (\<exists>text. credentials_of_text m text = Inr (Some c)))"
  proof (cases k)
    case None
    with k f fc show ?thesis by (simp add: getExistingClaudeCredentials_def)
  next
    case (Some c)
    with k kc show ?thesis by (simp add: getExistingClaudeCredentials_def)
  qed
  then show "\<exists>r. getExistingClaudeCredentials m = Inr r \<and>
      (\<forall>c. r = Some c \<longrightarrow>
         (\<exists>text j oa. JSON_parse m text = Inr j \<and>
            get_prop j ''claudeAiOauth'' = Inr (Some oa) \<and> truthy oa \<and>
            credential_of oa = Inr c))"
    using credentials_of_text_Some by blast
next
  assume h: "(\<forall>command. \<exists>e. execSync m command = Inl e) \<and>
    (\<forall>path. existsSync m path \<longrightarrow> (\<exists>e. readFileSync m path = Inl e))"
  have x: "try_catch (exec_lookup m command) = Inr None" for command
    using h exec_fails_lookup by blast
  have y: "try_catch (file_lookup m path) = Inr None" for path
    using h file_fails_lookup by blast
  show "getExistingClaudeCredentials m = Inr None"
    by (simp add: getExistingClaudeCredentials_def readFromKeychain_def
        readFromMacOSKeychain_def readFromWindowsCredentialManager_def
        readFromLinuxSecretService_def readFromCredentialsFile_def Let_def home x y)
next
  assume h: "\<forall>t. \<exists>e. JSON_parse m t = Inl e"
  note x = parse_fails_exec [OF h] and y = parse_fails_file [OF h]
  show "getExistingClaudeCredentials m = Inr None"
    by (simp add: getExistingClaudeCredentials_def readFromKeychain_def
        readFromMacOSKeychain_def readFromWindowsCredentialManager_def
        readFromLinuxSecretService_def readFromCredentialsFile_def Let_def home x y)
qed

lemma getExistingClaudeCredentials_returns_examples:
  "getExistingClaudeCredentials bare_machine = Inr None \<and>
   getExistingClaudeCredentials file_machine =
     Inr (Some \<lparr> cred_accessToken = Some (JStr ''tok-1''),
                 cred_refreshToken = Some (JStr ''ref-1''),
                 cred_expiresAt = Some (JNum 1700003600000), cred_scopes = None \<rparr>) \<and>
   JSON_parse file_machine ''{...}'' = Inr (JObj [(''claudeAiOauth'', sample_oauth)]) \<and>
   truthy sample_oauth"
proof -
  have home: "homedir bare_machine = Inr ''/home/u''"
    by (simp add: bare_machine_def)
  have h: "(\<forall>command. \<exists>e. execSync bare_machine command = Inl e) \<and>
    (\<forall>path. existsSync bare_machine path \<longrightarrow> (\<exists>e. readFileSync bare_machine path = Inl e))"
    by (simp add: bare_machine_def)
  from getExistingClaudeCredentials_returns [OF home] h
  have a: "getExistingClaudeCredentials bare_machine = Inr None"
    by blast
  have b: "getExistingClaudeCredentials file_machine =
     Inr (Some \<lparr> cred_accessToken = Some (JStr ''tok-1''),
                 cred_refreshToken = Some (JStr ''ref-1''),
                 cred_expiresAt = Some (JNum 1700003600000), cred_scopes = None \<rparr>)"
    by code_simp
  have c: "JSON_parse file_machine ''{...}'' = Inr (JObj [(''claudeAiOauth'', sample_oauth)])"
    by (simp add: file_machine_def)
  have d: "truthy sample_oauth"
    by (simp add: sample_oauth_def)
  from a b c d show ?thesis by simp
qed

text \<open>
  The error of \<open>os.homedir()\<close> is the one error that is not swallowed: the function
  throws exactly when \<open>os.homedir()\<close> throws and the keychain readers found nothing,
  and what it throws is that error.
\<close>

lemma getExistingClaudeCredentials_throws_iff:
  "getExistingClaudeCredentials m = Inl e \<longleftrightarrow>
     homedir m = Inl e \<and> readFromKeychain m = Inr None"
proof -
  obtain k where k: "readFromKeychain m = Inr k"
    using readFromKeychain_result by blast
  show ?thesis
  proof (cases k)
    case (Some c)
    with k show ?thesis by (simp add: getExistingClaudeCredentials_def)
  next
    case None
    show ?thesis
    proof (cases "homedir m")
      case (Inl e')
      with k None show ?thesis
        by (auto simp: getExistingClaudeCredentials_def readFromCredentialsFile_throws)
    next
      case (Inr home)
      from readFromCredentialsFile_result [OF Inr] obtain f
        where "readFromCredentialsFile m = Inr f" by blast
      with k None Inr show ?thesis
        by (simp add: getExistingClaudeCredentials_def)
    qed
  qed
qed

text \<open>
  Claim C9, at a Linux machine whose user has no home directory and where no secret
  is found. The claim is that \<open>getExistingClaudeCredentials\<close> never throws, every
  error being swallowed and treated as not found. Here the keychain readers return
  \<open>null\<close>, and the credentials-file fallback throws the system error of
  \<open>os.homedir()\<close>, which it calls before its \<open>try\<close> block; so does
  \<open>getExistingClaudeCredentials\<close>, instead of returning \<open>null\<close>. The Windows reader,
  which reads the same file, calls \<open>os.homedir()\<close> inside its \<open>try\<close> block and
  returns \<open>null\<close> on the same machine.
\<close>

theorem getExistingClaudeCredentials_throws_homedir_error:
  "homedir homeless_machine =
     Inl (Error ''A system error occurred: uv_os_homedir returned ENOENT (no such file or directory)'') \<and>
   readFromKeychain homeless_machine = Inr None \<and>
   readFromWindowsCredentialManager homeless_machine = Inr None \<and>
   readFromCredentialsFile homeless_machine =
     Inl (Error ''A system error occurred: uv_os_homedir returned ENOENT (no such file or directory)'') \<and>
   getExistingClaudeCredentials homeless_machine =
     Inl (Error ''A system error occurred: uv_os_homedir returned ENOENT (no such file or directory)'')"
proof -
  have h: "homedir homeless_machine =
     Inl (Error ''A system error occurred: uv_os_homedir returned ENOENT (no such file or directory)'')"
    by (simp add: homeless_machine_def)
  have x: "try_catch (exec_lookup homeless_machine command) = Inr None" for command
    by (rule exec_fails_lookup [of _ _ "Error ''Command failed''"])
      (simp add: homeless_machine_def bare_machine_def)
  have p: "platform homeless_machine = ''linux''"
    by (simp add: homeless_machine_def bare_machine_def)
  have k: "readFromKeychain homeless_machine = Inr None"
    by (simp add: readFromKeychain_def readFromLinuxSecretService_def x p)
  have w: "readFromWindowsCredentialManager homeless_machine = Inr None"
    by (simp add: readFromWindowsCredentialManager_def try_catch_def h)
  have f: "readFromCredentialsFile homeless_machine =
     Inl (Error ''A system error occurred: uv_os_homedir returned ENOENT (no such file or directory)'')"
    by (simp add: readFromCredentialsFile_def h)
  have g: "getExistingClaudeCredentials homeless_machine =
     Inl (Error ''A system error occurred: uv_os_homedir returned ENOENT (no such file or directory)'')"
    by (simp add: getExistingClaudeCredentials_def k f)
  from h k w f g show ?thesis
    by (intro conjI)
qed

end
